theory Spec2Isabelle
  imports Complex_Main "HOL-Library.Multiset" "HOL-Library.Option_ord"
begin

section \<open>Data model\<close>

text \<open>
  The browser's \<^verbatim>\<open>File\<close> object, reduced to the three properties the code reads:
  \<^verbatim>\<open>file.name\<close>, \<^verbatim>\<open>file.type\<close> (the MIME type) and \<^verbatim>\<open>file.size\<close> (bytes).
\<close>

record File =
  name_f :: string
  type_f :: string
  size_f :: nat

text \<open>
  \<^verbatim>\<open>interface TravelDocument { id; file; displayName; customDateTime; uploadedAt }\<close>
  of \<^verbatim>\<open>page.tsx\<close>. The source keeps \<^verbatim>\<open>customDateTime\<close> as a string and reads it back
  with \<^verbatim>\<open>parseISO(...).getTime()\<close> whenever it sorts. The model keeps what that reading
  gives: \<open>Some t\<close>, the instant in milliseconds since the epoch, or \<open>None\<close> when
  \<^verbatim>\<open>parseISO\<close> does not read the string as a date and \<^verbatim>\<open>getTime()\<close> is \<^verbatim>\<open>NaN\<close>.
  Nothing in the page keeps such a string out of a document.

  Timestamps are compared with the order of \<open>Option_ord\<close>, where \<open>None\<close> is
  below every instant: a list is sorted by \<open>customDateTime\<close> when its unreadable
  timestamps, if it has any, come first and the instants after them ascend.
\<close>

record TravelDocument =
  id_d :: string
  file_d :: File
  displayName :: string
  customDateTime :: "int option"
  uploadedAt :: int

text \<open>
  \<^verbatim>\<open>Partial<TravelDocument>\<close>: every property may be present or not.
  \<open>customDateTime_u = Some None\<close> is an update to a string that is not a date.
\<close>

record Updates =
  id_u :: "string option"
  file_u :: "File option"
  displayName_u :: "string option"
  customDateTime_u :: "int option option"
  uploadedAt_u :: "int option"

definition noUpdates :: Updates where
  "noUpdates = \<lparr>id_u = None, file_u = None, displayName_u = None,
                 customDateTime_u = None, uploadedAt_u = None\<rparr>"

section \<open>Sorting with a comparator\<close>

text \<open>
  \<^verbatim>\<open>Array.prototype.sort(comparefn)\<close>. A comparator returns a number; \<open>None\<close> is
  \<^verbatim>\<open>NaN\<close>, which the sort takes for \<open>+0\<close> (\<^verbatim>\<open>SortCompare\<close> of ECMAScript).
\<close>

type_synonym 'a comparefn = "'a \<Rightarrow> 'a \<Rightarrow> int option"

definition sortCompare :: "'a comparefn \<Rightarrow> 'a \<Rightarrow> 'a \<Rightarrow> int" where
  "sortCompare comparefn x y = (case comparefn x y of None \<Rightarrow> 0 | Some v \<Rightarrow> v)"

text \<open>
  Where the comparator is consistent on the elements, ECMAScript fixes the result: the
  stable sorted permutation. Where it is not (a \<^verbatim>\<open>NaN\<close> next to two different
  instants), the order is left to the engine. The model follows V8 (Chrome, Edge, Node),
  whose \<^verbatim>\<open>ArrayTimSort\<close> does this with an array shorter than 64 elements:
  \<^verbatim>\<open>CountAndMakeRun\<close> finds the run the array starts with (non-descending, or strictly
  descending and then reversed), and \<^verbatim>\<open>BinaryInsertionSort\<close> inserts each later
  element into the sorted part in front of it.

  \<^verbatim>\<open>CountAndMakeRun\<close>: \<open>countRun\<close> is its loop over the elements after the second.
\<close>

fun countRun :: "'a comparefn \<Rightarrow> bool \<Rightarrow> 'a \<Rightarrow> 'a list \<Rightarrow> nat" where
  "countRun comparefn isDescending previousElement [] = 0"
| "countRun comparefn isDescending previousElement (currentElement # rest) =
     (let order = sortCompare comparefn currentElement previousElement in
      if (if isDescending then order \<ge> 0 else order < 0) then 0
      else Suc (countRun comparefn isDescending currentElement rest))"

text \<open>The run, reversed when it descends, and the elements after it.\<close>

definition countAndMakeRun :: "'a comparefn \<Rightarrow> 'a list \<Rightarrow> 'a list \<times> 'a list" where
  "countAndMakeRun comparefn workArray =
     (case workArray of
        elementHigh # elementLow # rest \<Rightarrow>
          (let isDescending = sortCompare comparefn elementLow elementHigh < 0;
               runLength = 2 + countRun comparefn isDescending elementLow rest
           in (if isDescending then rev (take runLength workArray)
               else take runLength workArray,
               drop runLength workArray))
      | _ \<Rightarrow> (workArray, []))"

text \<open>
  The binary search of \<^verbatim>\<open>BinaryInsertionSort\<close> for the place of \<open>pivot\<close> in the
  sorted part: \<^verbatim>\<open>if (order < 0) right = mid; else left = mid + 1;\<close>. It reads
  \<open>workArray\<close> below \<open>right\<close> only, and is called with \<open>right\<close> the length of
  the sorted part.
\<close>

function binarySearch :: "'a comparefn \<Rightarrow> 'a \<Rightarrow> 'a list \<Rightarrow> nat \<Rightarrow> nat \<Rightarrow> nat" where
  "binarySearch comparefn pivot workArray left right =
     (if left < right
      then
        (let mid = left + (right - left) div 2 in
         if sortCompare comparefn pivot (workArray ! mid) < 0
         then binarySearch comparefn pivot workArray left mid
         else binarySearch comparefn pivot workArray (mid + 1) right)
      else left)"
  by pat_completeness auto
termination
  by (relation "measure (\<lambda>(comparefn, pivot, workArray, left, right). right - left)") auto

declare binarySearch.simps [simp del]

definition binaryInsert :: "'a comparefn \<Rightarrow> 'a list \<Rightarrow> 'a \<Rightarrow> 'a list" where
  "binaryInsert comparefn sortedPart pivot =
     (let left = binarySearch comparefn pivot sortedPart 0 (length sortedPart)
      in take left sortedPart @ pivot # drop left sortedPart)"

text \<open>
  The sort. (From 64 elements on V8 sorts pieces of the array in this way and merges
  them. Where the comparator is consistent the result is the same, being unique; where
  it is not, the order this function gives to so long a list is not V8's.)
\<close>

definition sortBy :: "'a comparefn \<Rightarrow> 'a list \<Rightarrow> 'a list" where
  "sortBy comparefn xs =
     (if length xs < 2 then xs
      else
        (case countAndMakeRun comparefn xs of
           (run, rest) \<Rightarrow> foldl (binaryInsert comparefn) run rest))"

text \<open>
  The comparator of \<^verbatim>\<open>page.tsx\<close>:
  \<^verbatim>\<open>(a, b) => parseISO(a.customDateTime).getTime() - parseISO(b.customDateTime).getTime()\<close>.
  A difference with \<^verbatim>\<open>NaN\<close> is \<^verbatim>\<open>NaN\<close>.
\<close>

definition compareByDateTime :: "TravelDocument comparefn" where
  "compareByDateTime a b =
     (case customDateTime a of
        None \<Rightarrow> None
      | Some ta \<Rightarrow> (case customDateTime b of None \<Rightarrow> None | Some tb \<Rightarrow> Some (ta - tb)))"

section \<open>Local time\<close>

text \<open>
  The time zone of the browser, as ECMAScript's \<^verbatim>\<open>LocalTZA\<close>: the offset of local time
  from UTC in milliseconds, at a UTC instant (\<open>offsetAtUTC\<close>) and at a local time
  (\<open>offsetAtLocal\<close>; for a local time that a clock change repeats or skips, the offset
  before the change). \<^verbatim>\<open>LocalTime(t)\<close> and \<^verbatim>\<open>UTC(t)\<close> are defined from them.
\<close>

record Zone =
  offsetAtUTC :: "int \<Rightarrow> int"
  offsetAtLocal :: "int \<Rightarrow> int"

definition localTime :: "Zone \<Rightarrow> int \<Rightarrow> int" where
  "localTime z t = t + offsetAtUTC z t"

definition utcTime :: "Zone \<Rightarrow> int \<Rightarrow> int" where
  "utcTime z t = t - offsetAtLocal z t"

text \<open>\<^verbatim>\<open>Day\<close>, \<^verbatim>\<open>HourFromTime\<close>, \<^verbatim>\<open>MinFromTime\<close>, \<^verbatim>\<open>SecFromTime\<close>, \<^verbatim>\<open>msFromTime\<close>.\<close>

definition dayOf :: "int \<Rightarrow> int" where
  "dayOf t = t div 86400000"

definition hourFromTime :: "int \<Rightarrow> int" where
  "hourFromTime t = t div 3600000 mod 24"

definition minFromTime :: "int \<Rightarrow> int" where
  "minFromTime t = t div 60000 mod 60"

definition secFromTime :: "int \<Rightarrow> int" where
  "secFromTime t = t div 1000 mod 60"

definition msFromTime :: "int \<Rightarrow> int" where
  "msFromTime t = t mod 1000"

text \<open>
  date-fns on a \<^verbatim>\<open>Date\<close>, which is a number of milliseconds since the epoch:
  \<^verbatim>\<open>startOfDay\<close> calls \<^verbatim>\<open>date.setHours(0, 0, 0, 0)\<close>, \<^verbatim>\<open>setMinutes\<close> calls
  \<^verbatim>\<open>date.setMinutes(minutes)\<close> and \<^verbatim>\<open>setHours\<close> calls \<^verbatim>\<open>date.setHours(hours)\<close>. Each
  setter of \<^verbatim>\<open>Date\<close> takes the local time of the date, replaces the fields it is given
  and goes back with \<^verbatim>\<open>UTC\<close>.
\<close>

definition startOfDay :: "Zone \<Rightarrow> int \<Rightarrow> int" where
  "startOfDay z d = utcTime z (dayOf (localTime z d) * 86400000)"

definition setMinutes :: "Zone \<Rightarrow> int \<Rightarrow> int \<Rightarrow> int" where
  "setMinutes z d minutes =
     (let t = localTime z d in
      utcTime z (dayOf t * 86400000 + hourFromTime t * 3600000 + minutes * 60000
                 + secFromTime t * 1000 + msFromTime t))"

definition setHours :: "Zone \<Rightarrow> int \<Rightarrow> int \<Rightarrow> int" where
  "setHours z d hours =
     (let t = localTime z d in
      utcTime z (dayOf t * 86400000 + hours * 3600000 + minFromTime t * 60000
                 + secFromTime t * 1000 + msFromTime t))"

definition todayAt10AM :: "Zone \<Rightarrow> int \<Rightarrow> int" where
  "todayAt10AM z today = setHours z (setMinutes z (startOfDay z today) 0) 10"



section \<open>The document store of \<^verbatim>\<open>page.tsx\<close>\<close>

text \<open>
  \<^verbatim>\<open>handleFileAdded(file)\<close>. The values the handler draws from its environment are
  arguments: \<open>z\<close> is the time zone, \<open>documentId\<close> is the result of
  \<^verbatim>\<open>crypto.randomUUID()\<close>, \<open>today\<close> and \<open>uploaded\<close> are the two readings of
  \<^verbatim>\<open>new Date()\<close>. \<^verbatim>\<open>todayAt10AM.toISOString()\<close> is a string that \<^verbatim>\<open>parseISO\<close> reads
  back as the same instant. The handler returns nothing; its effect is the new value of
  \<^verbatim>\<open>documents\<close>.
\<close>

definition newDocument :: "Zone \<Rightarrow> string \<Rightarrow> int \<Rightarrow> int \<Rightarrow> File \<Rightarrow> TravelDocument" where
  "newDocument z documentId today uploaded f =
     \<lparr>id_d = documentId, file_d = f, displayName = name_f f,
      customDateTime = Some (todayAt10AM z today), uploadedAt = uploaded\<rparr>"

definition handleFileAdded ::
  "Zone \<Rightarrow> string \<Rightarrow> int \<Rightarrow> int \<Rightarrow> File \<Rightarrow> TravelDocument list \<Rightarrow> TravelDocument list" where
  "handleFileAdded z documentId today uploaded f prev =
     sortBy compareByDateTime (prev @ [newDocument z documentId today uploaded f])"



text \<open>
  \<^verbatim>\<open>{ ...doc, ...updates }\<close>: a property present in \<open>updates\<close> replaces the document's.
\<close>

definition spread :: "TravelDocument \<Rightarrow> Updates \<Rightarrow> TravelDocument" where
  "spread doc u =
     \<lparr>id_d = (case id_u u of None \<Rightarrow> id_d doc | Some v \<Rightarrow> v),
      file_d = (case file_u u of None \<Rightarrow> file_d doc | Some v \<Rightarrow> v),
      displayName = (case displayName_u u of None \<Rightarrow> displayName doc | Some v \<Rightarrow> v),
      customDateTime = (case customDateTime_u u of None \<Rightarrow> customDateTime doc | Some v \<Rightarrow> v),
      uploadedAt = (case uploadedAt_u u of None \<Rightarrow> uploadedAt doc | Some v \<Rightarrow> v)\<rparr>"

definition updateDocument :: "string \<Rightarrow> Updates \<Rightarrow> TravelDocument list \<Rightarrow> TravelDocument list" where
  "updateDocument i u prev =
     sortBy compareByDateTime (map (\<lambda>doc. if id_d doc = i then spread doc u else doc) prev)"

definition deleteDocument :: "string \<Rightarrow> TravelDocument list \<Rightarrow> TravelDocument list" where
  "deleteDocument i prev = filter (\<lambda>doc. id_d doc \<noteq> i) prev"

text \<open>
  A sequence of store operations, starting from the empty list that
  \<^verbatim>\<open>useState<TravelDocument[]>([])\<close> creates.
\<close>

datatype store_op =
  Add string int int File
| Update string Updates
| Remove string

fun apply_op :: "Zone \<Rightarrow> store_op \<Rightarrow> TravelDocument list \<Rightarrow> TravelDocument list" where
  "apply_op z (Add documentId today uploaded f) docs =
     handleFileAdded z documentId today uploaded f docs"
| "apply_op z (Update i u) docs = updateDocument i u docs"
| "apply_op z (Remove i) docs = deleteDocument i docs"

fun run_ops :: "Zone \<Rightarrow> store_op list \<Rightarrow> TravelDocument list \<Rightarrow> TravelDocument list" where
  "run_ops z [] docs = docs"
| "run_ops z (x # xs) docs = run_ops z xs (apply_op z x docs)"

text \<open>
  An operation that leaves every timestamp readable: an add, a remove, or an update
  that does not set \<open>customDateTime\<close> to a string that is not a date.
\<close>

fun readableOp :: "store_op \<Rightarrow> bool" where
  "readableOp (Update i u) = (customDateTime_u u \<noteq> Some None)"
| "readableOp _ = True"

text \<open>
  An upload is what one call of \<^verbatim>\<open>handleFileAdded\<close> takes and draws: the generated id,
  the two clock readings and the file.
\<close>

type_synonym upload = "string \<times> int \<times> int \<times> File"

fun addOp :: "upload \<Rightarrow> store_op" where
  "addOp (documentId, today, uploaded, f) = Add documentId today uploaded f"

fun documentOf :: "Zone \<Rightarrow> upload \<Rightarrow> TravelDocument" where
  "documentOf z (documentId, today, uploaded, f) = newDocument z documentId today uploaded f"

text \<open>
  What a call of one of the three handlers gives back to its caller. A JavaScript call
  returns a value or throws. None of the three arrow functions has a \<^verbatim>\<open>return\<close>
  or a \<^verbatim>\<open>throw\<close> statement, so each call evaluates to \<^verbatim>\<open>undefined\<close>.
\<close>

datatype call_outcome = ReturnsUndefined | ReturnsValue string | Throws string


definition call_updateDocument ::
  "string \<Rightarrow> Updates \<Rightarrow> TravelDocument list \<Rightarrow> call_outcome \<times> TravelDocument list" where
  "call_updateDocument i u prev = (ReturnsUndefined, updateDocument i u prev)"

definition call_deleteDocument ::
  "string \<Rightarrow> TravelDocument list \<Rightarrow> call_outcome \<times> TravelDocument list" where
  "call_deleteDocument i prev = (ReturnsUndefined, deleteDocument i prev)"

section \<open>The file validator of \<^verbatim>\<open>FileUpload.tsx\<close>\<close>

text \<open>
  \<^verbatim>\<open>Math.round(n / (1024 * 1024))\<close> for a byte count \<open>n\<close>: the nearest integer, a
  half rounded up.
\<close>

definition roundMB :: "nat \<Rightarrow> nat" where
  "roundMB n = (2 * n + 1048576) div 2097152"

text \<open>
  The two messages of \<^verbatim>\<open>validateFile\<close>:
  \<^verbatim>\<open>File size exceeds ${Math.round(maxFileSize / (1024 * 1024))}MB limit\<close> and
  \<^verbatim>\<open>File type ${file.type} is not supported\<close>.
\<close>

datatype validation_error = SizeExceeded nat | UnsupportedType string

record Validation =
  isValid :: bool
  error_v :: "validation_error option"

text \<open>
  \<^verbatim>\<open>acceptedFileTypes[0] !== '*'\<close>: only the first entry is looked at, and an empty
  array has no first entry (\<^verbatim>\<open>undefined !== '*'\<close>).
\<close>

definition firstIsNotWildcard :: "string list \<Rightarrow> bool" where
  "firstIsNotWildcard acceptedFileTypes =
     (case acceptedFileTypes of [] \<Rightarrow> True | t # _ \<Rightarrow> t \<noteq> ''*'')"

definition validateFile :: "nat \<Rightarrow> string list \<Rightarrow> File \<Rightarrow> Validation" where
  "validateFile maxFileSize acceptedFileTypes f =
     (if size_f f > maxFileSize
      then \<lparr>isValid = False, error_v = Some (SizeExceeded (roundMB maxFileSize))\<rparr>
      else if firstIsNotWildcard acceptedFileTypes \<and> type_f f \<notin> set acceptedFileTypes
      then \<lparr>isValid = False, error_v = Some (UnsupportedType (type_f f))\<rparr>
      else \<lparr>isValid = True, error_v = None\<rparr>)"

text \<open>The configuration \<^verbatim>\<open>page.tsx\<close> passes to \<^verbatim>\<open><FileUpload>\<close>.\<close>

definition pageAcceptedFileTypes :: "string list" where
  "pageAcceptedFileTypes =
     [''application/pdf'', ''image/jpeg'', ''image/png'', ''image/jpg'', ''application/msword'',
      ''application/vnd.openxmlformats-officedocument.wordprocessingml.document'']"

definition pageMaxFileSize :: nat where
  "pageMaxFileSize = 25 * 1024 * 1024"

section \<open>The parser client of \<^verbatim>\<open>utils/fileParser.ts\<close>\<close>

text \<open>
  A value that \<^verbatim>\<open>JSON.parse\<close> returns. An object is its list of members in the order
  of the text.
\<close>

datatype json =
  JNull
| JBool bool
| JNum rat
| JStr string
| JArr "json list"
| JObj "(string \<times> json) list"

text \<open>
  \<^verbatim>\<open>value.key\<close> for a value that is not \<^verbatim>\<open>null\<close>; \<open>None\<close> is \<^verbatim>\<open>undefined\<close>. Of a
  repeated member name \<^verbatim>\<open>JSON.parse\<close> keeps the last. The function is used with the
  names \<^verbatim>\<open>documentName\<close>, \<^verbatim>\<open>documentType\<close>, \<^verbatim>\<open>confidence\<close> and \<^verbatim>\<open>timestamp\<close>
  only, which no string, number, boolean or array has as a property.
\<close>

fun getProp :: "json \<Rightarrow> string \<Rightarrow> json option" where
  "getProp (JObj members) key = map_of (rev members) key"
| "getProp _ key = None"

text \<open>JavaScript's truthiness, which \<^verbatim>\<open>!x\<close> and \<^verbatim>\<open>if (x)\<close> test.\<close>

fun truthy :: "json option \<Rightarrow> bool" where
  "truthy None = False"
| "truthy (Some JNull) = False"
| "truthy (Some (JBool b)) = b"
| "truthy (Some (JNum r)) = (r \<noteq> 0)"
| "truthy (Some (JStr s)) = (s \<noteq> [])"
| "truthy (Some (JArr _)) = True"
| "truthy (Some (JObj _)) = True"

text \<open>\<^verbatim>\<open>['high', 'medium', 'low'].includes(x)\<close>\<close>

fun isConfidenceLevel :: "json option \<Rightarrow> bool" where
  "isConfidenceLevel (Some (JStr s)) = (s \<in> set [''high'', ''medium'', ''low''])"
| "isConfidenceLevel _ = False"

text \<open>
  The \<^verbatim>\<open>error\<close> strings of \<^verbatim>\<open>FileParseResult\<close>, one constructor for each message of
  the file, in the order the file produces them:
  \<^item> \<^verbatim>\<open>File type ... is not supported for parsing. ...\<close>
  \<^item> \<^verbatim>\<open>File is too large for AI parsing (...MB). Maximum size for parsing is 10MB.\<close>
  \<^item> \<^verbatim>\<open>OpenAI API key not configured. ...\<close>
  \<^item> \<^verbatim>\<open>No response received from OpenAI\<close>
  \<^item> \<^verbatim>\<open>Invalid response format from OpenAI - missing required fields\<close>
  \<^item> \<^verbatim>\<open>Invalid confidence value from OpenAI\<close>
  \<^item> \<^verbatim>\<open>Failed to parse OpenAI response\<close>
  \<^item> \<^verbatim>\<open>error.message\<close> of a caught \<^verbatim>\<open>Error\<close>
  \<^item> \<^verbatim>\<open>Unknown error occurred\<close>, for a caught value that is no \<^verbatim>\<open>Error\<close>
\<close>

datatype parse_error =
  NotSupportedForParsing string
| TooLargeForParsing nat
| ApiKeyNotConfigured
| NoResponseReceived
| MissingRequiredFields
| InvalidConfidenceValue
| FailedToParseResponse
| ErrorMessage string
| UnknownErrorOccurred

text \<open>
  \<^verbatim>\<open>FileParseResult\<close>: the file builds \<^verbatim>\<open>{ success: true, data }\<close> and
  \<^verbatim>\<open>{ success: false, error }\<close> only. \<^verbatim>\<open>data\<close> is the parsed payload itself; the cast
  \<^verbatim>\<open>as ParsedDocument\<close> checks nothing.
\<close>

datatype FileParseResult = Success json | Failure parse_error

text \<open>
  The failure reasons of the specification, and the message each stands for.
\<close>

datatype failure_reason =
  UnsupportedTypeForParsing
| TooLarge
| MissingCredentials
| ServiceError
| ResponseValidationError

fun reasonOf :: "parse_error \<Rightarrow> failure_reason" where
  "reasonOf (NotSupportedForParsing _) = UnsupportedTypeForParsing"
| "reasonOf (TooLargeForParsing _) = TooLarge"
| "reasonOf ApiKeyNotConfigured = MissingCredentials"
| "reasonOf NoResponseReceived = ServiceError"
| "reasonOf MissingRequiredFields = ResponseValidationError"
| "reasonOf InvalidConfidenceValue = ResponseValidationError"
| "reasonOf FailedToParseResponse = ServiceError"
| "reasonOf (ErrorMessage _) = ServiceError"
| "reasonOf UnknownErrorOccurred = ServiceError"

text \<open>
  The request that \<^verbatim>\<open>openai.chat.completions.create\<close> sends: the fixed prompt with
  the file's name, type, size and content filled in.
\<close>

record GptRequest =
  promptFile :: File
  promptContent :: string

text \<open>
  What the call of the service comes back with: the promise rejects with an \<^verbatim>\<open>Error\<close>
  (its message) or with another value, or it resolves and
  \<^verbatim>\<open>completion.choices[0]?.message?.content\<close> is a string or is missing.
\<close>

datatype completion =
  RejectsWithError string
| RejectsWithOther
| Resolves "string option"

text \<open>
  The environment of the parser: \<^verbatim>\<open>process.env.NEXT_PUBLIC_OPENAI_API_KEY\<close>, the
  \<^verbatim>\<open>FileReader\<close> (\<open>None\<close>: its \<^verbatim>\<open>onerror\<close> fires), the external service,
  \<^verbatim>\<open>JSON.parse\<close> (\<open>None\<close>: it throws a \<^verbatim>\<open>SyntaxError\<close>) and date-fns' \<^verbatim>\<open>parseISO\<close>
  followed by \<^verbatim>\<open>getTime()\<close> (\<open>None\<close>: an invalid date).
\<close>

record World =
  apiKey :: "string option"
  readAsText :: "File \<Rightarrow> string option"
  createCompletion :: "GptRequest \<Rightarrow> completion"
  jsonParse :: "string \<Rightarrow> json option"
  parseISO :: "string \<Rightarrow> int option"

text \<open>
  The body of the inner \<^verbatim>\<open>try\<close> of \<^verbatim>\<open>parseFileWithGPT\<close>, after \<^verbatim>\<open>JSON.parse\<close>. Reading
  a property of \<^verbatim>\<open>null\<close> throws a \<^verbatim>\<open>TypeError\<close>, which the inner \<^verbatim>\<open>catch\<close> turns
  into \<^verbatim>\<open>Failed to parse OpenAI response\<close>.
\<close>

definition validatePayload :: "json \<Rightarrow> FileParseResult" where
  "validatePayload parsedData =
     (case parsedData of
        JNull \<Rightarrow> Failure FailedToParseResponse
      | _ \<Rightarrow>
          if \<not> truthy (getProp parsedData ''documentName'')
             \<or> \<not> truthy (getProp parsedData ''documentType'')
             \<or> \<not> truthy (getProp parsedData ''confidence'')
          then Failure MissingRequiredFields
          else if \<not> isConfidenceLevel (getProp parsedData ''confidence'')
          then Failure InvalidConfidenceValue
          else Success parsedData)"

text \<open>
  \<^verbatim>\<open>parseFileWithGPT(file, fileContent)\<close>. The second component of the result lists the
  requests sent to the external service during the call. \<^verbatim>\<open>!x\<close> holds of a missing
  value and of the empty string.
\<close>

definition parseFileWithGPT :: "World \<Rightarrow> File \<Rightarrow> string \<Rightarrow> FileParseResult \<times> GptRequest list" where
  "parseFileWithGPT w f fileContent =
     (if apiKey w = None \<or> apiKey w = Some []
      then (Failure ApiKeyNotConfigured, [])
      else
        let request = \<lparr>promptFile = f, promptContent = fileContent\<rparr> in
        (case createCompletion w request of
           RejectsWithError message \<Rightarrow> (Failure (ErrorMessage message), [request])
         | RejectsWithOther \<Rightarrow> (Failure UnknownErrorOccurred, [request])
         | Resolves None \<Rightarrow> (Failure NoResponseReceived, [request])
         | Resolves (Some response) \<Rightarrow>
             (if response = []
              then (Failure NoResponseReceived, [request])
              else
                (case jsonParse w response of
                   None \<Rightarrow> (Failure FailedToParseResponse, [request])
                 | Some parsedData \<Rightarrow> (validatePayload parsedData, [request])))))"

text \<open>\<^verbatim>\<open>readFileAsText(file)\<close>; \<open>None\<close> is the rejection \<^verbatim>\<open>new Error('Failed to read file')\<close>.\<close>

definition truncateContent :: "string \<Rightarrow> string" where
  "truncateContent content =
     (if length content > 50000
      then take 50000 content @ [CHR 0x0A, CHR 0x0A] @ ''[Content truncated due to length]''
      else content)"

definition readFileAsText :: "World \<Rightarrow> File \<Rightarrow> string option" where
  "readFileAsText w f = map_option truncateContent (readAsText w f)"

definition supportedTypes :: "string list" where
  "supportedTypes =
     [''text/plain'', ''application/pdf'', ''application/msword'',
      ''application/vnd.openxmlformats-officedocument.wordprocessingml.document'',
      ''text/csv'', ''application/json'']"

definition isFileTypeSupported :: "File \<Rightarrow> bool" where
  "isFileTypeSupported f = (type_f f \<in> set supportedTypes)"

definition maxSizeForParsing :: nat where
  "maxSizeForParsing = 10 * 1024 * 1024"

text \<open>\<^verbatim>\<open>parseDocument(file)\<close>, with the requests sent to the external service.\<close>

definition parseDocument :: "World \<Rightarrow> File \<Rightarrow> FileParseResult \<times> GptRequest list" where
  "parseDocument w f =
     (if \<not> isFileTypeSupported f
      then (Failure (NotSupportedForParsing (type_f f)), [])
      else if size_f f > maxSizeForParsing
      then (Failure (TooLargeForParsing (roundMB (size_f f))), [])
      else
        (case readFileAsText w f of
           None \<Rightarrow> (Failure (ErrorMessage ''Failed to read file''), [])
         | Some fileContent \<Rightarrow> parseFileWithGPT w f fileContent))"


section \<open>The image parser\<close>

text \<open>
  The repository holds a second copy of the parser, whose \<^verbatim>\<open>parseFileWithGPT(file)\<close>
  sends the file to the service as an image and returns the structured output of the
  service as it is. Its messages:
  \<^item> \<^verbatim>\<open>File type ... is not supported. Supported: PDF, Word, TXT, CSV, JSON\<close>
  \<^item> \<^verbatim>\<open>File too large (...MB). Max is 10MB.\<close>
  \<^item> \<^verbatim>\<open>OpenAI API key not configured. ...\<close>
  \<^item> \<^verbatim>\<open>No structured output returned from model.\<close>
  \<^item> \<^verbatim>\<open>err.message\<close> of what was caught
  \<^item> \<^verbatim>\<open>Unknown error occurred\<close>, when that has no message
\<close>

datatype image_error =
  ImageTypeNotSupported string
| ImageFileTooLarge nat
| ImageKeyNotConfigured
| NoStructuredOutput
| ImageErrorMessage string
| ImageUnknownError

datatype ImageParseResult = ImageFailure image_error | ImageOutput json

fun reasonOf_image :: "image_error \<Rightarrow> failure_reason" where
  "reasonOf_image (ImageTypeNotSupported _) = UnsupportedTypeForParsing"
| "reasonOf_image (ImageFileTooLarge _) = TooLarge"
| "reasonOf_image ImageKeyNotConfigured = MissingCredentials"
| "reasonOf_image NoStructuredOutput = ServiceError"
| "reasonOf_image (ImageErrorMessage _) = ServiceError"
| "reasonOf_image ImageUnknownError = ServiceError"

text \<open>
  The request of \<^verbatim>\<open>openai.responses.parse\<close>: the fixed instructions with the image
  \<^verbatim>\<open>data:${file.type};base64,${base64Image}\<close>.
\<close>

record ImageRequest =
  imageType :: string
  imageBase64 :: string

text \<open>
  What the call comes back with: a rejection (\<open>Some\<close> its \<^verbatim>\<open>message\<close>, \<open>None\<close>
  when it has none), or \<^verbatim>\<open>res.output_parsed\<close> (\<open>None\<close>: \<^verbatim>\<open>null\<close>).
\<close>

datatype image_completion =
  ImageRejects "string option"
| ImageResolves "json option"

text \<open>
  The environment of the image parser: the key, \<^verbatim>\<open>fileToBase64\<close> (\<open>None\<close>: the
  \<^verbatim>\<open>FileReader\<close> fails, and the promise rejects with the event, which has no message)
  and the service.
\<close>

record ImageWorld =
  apiKey_i :: "string option"
  fileToBase64 :: "File \<Rightarrow> string option"
  parseResponse :: "ImageRequest \<Rightarrow> image_completion"

definition supportedTypes_image :: "string list" where
  "supportedTypes_image =
     [''application/pdf'', ''image/jpeg'', ''image/png'', ''image/jpg'', ''application/msword'',
      ''application/vnd.openxmlformats-officedocument.wordprocessingml.document'']"

definition isFileTypeSupported_image :: "File \<Rightarrow> bool" where
  "isFileTypeSupported_image f = (type_f f \<in> set supportedTypes_image)"

text \<open>
  \<^verbatim>\<open>parseFileWithGPT(file)\<close> of the image parser, with the requests sent to the service.
\<close>

definition parseFileWithGPT_image ::
  "ImageWorld \<Rightarrow> File \<Rightarrow> ImageParseResult \<times> ImageRequest list" where
  "parseFileWithGPT_image w f =
     (if \<not> isFileTypeSupported_image f
      then (ImageFailure (ImageTypeNotSupported (type_f f)), [])
      else if size_f f > 10 * 1024 * 1024
      then (ImageFailure (ImageFileTooLarge (roundMB (size_f f))), [])
      else if apiKey_i w = None \<or> apiKey_i w = Some []
      then (ImageFailure ImageKeyNotConfigured, [])
      else
        (case fileToBase64 w f of
           None \<Rightarrow> (ImageFailure ImageUnknownError, [])
         | Some base64Image \<Rightarrow>
             let request = \<lparr>imageType = type_f f, imageBase64 = base64Image\<rparr> in
             (case parseResponse w request of
                ImageRejects None \<Rightarrow> (ImageFailure ImageUnknownError, [request])
              | ImageRejects (Some message) \<Rightarrow>
                  (if message = [] then (ImageFailure ImageUnknownError, [request])
                   else (ImageFailure (ImageErrorMessage message), [request]))
              | ImageResolves None \<Rightarrow> (ImageFailure NoStructuredOutput, [request])
              | ImageResolves (Some parsed) \<Rightarrow>
                  (if \<not> truthy (Some parsed)
                   then (ImageFailure NoStructuredOutput, [request])
                   else (ImageOutput parsed, [request])))))"

text \<open>
  \<^verbatim>\<open>parseDocument(file)\<close> of the image parser only calls \<^verbatim>\<open>parseFileWithGPT\<close>, which
  catches every exception itself.
\<close>

definition parseDocument_image ::
  "ImageWorld \<Rightarrow> File \<Rightarrow> ImageParseResult \<times> ImageRequest list" where
  "parseDocument_image w f = parseFileWithGPT_image w f"

section \<open>The page: upload and parse actions\<close>

text \<open>
  The messages shown with \<^verbatim>\<open>alert\<close>:
  \<^verbatim>\<open>File validation failed: ${validation.error}\<close> of \<^verbatim>\<open>handleFile\<close> and
  \<^verbatim>\<open>Failed to parse document: ${result.error}\<close> of \<^verbatim>\<open>parseDocumentData\<close>
  (\<open>None\<close>: \<^verbatim>\<open>result.error\<close> is \<^verbatim>\<open>undefined\<close>).
\<close>

datatype alert =
  ValidationFailedAlert "validation_error option"
| ParseFailedAlert "parse_error option"

text \<open>
  The state the actions work on: \<^verbatim>\<open>documents\<close> and \<^verbatim>\<open>parsingId\<close> of \<^verbatim>\<open>Home\<close>, and
  the alerts shown so far.
\<close>

record AppState =
  documents :: "TravelDocument list"
  parsingId :: "string option"
  alerts :: "alert list"

text \<open>
  \<^verbatim>\<open>handleFile(file)\<close> of \<^verbatim>\<open>FileUpload.tsx\<close> with \<^verbatim>\<open>onFileAdded = handleFileAdded\<close>.
  (\<^verbatim>\<open>isProcessing\<close> is set at the start and cleared in \<^verbatim>\<open>finally\<close>; it is left out.)
\<close>

definition handleFile ::
  "nat \<Rightarrow> string list \<Rightarrow> Zone \<Rightarrow> string \<Rightarrow> int \<Rightarrow> int \<Rightarrow> File \<Rightarrow> AppState \<Rightarrow> AppState" where
  "handleFile maxFileSize acceptedFileTypes z documentId today uploaded f st =
     (let validation = validateFile maxFileSize acceptedFileTypes f in
      if \<not> isValid validation
      then st\<lparr>alerts := alerts st @ [ValidationFailedAlert (error_v validation)]\<rparr>
      else st\<lparr>documents := handleFileAdded z documentId today uploaded f (documents st)\<rparr>)"

text \<open>
  The \<^verbatim>\<open>updates\<close> object that \<^verbatim>\<open>parseDocumentData\<close> builds from \<^verbatim>\<open>result.data\<close>:
  \<^verbatim>\<open>displayName: result.data.documentName\<close>, and \<^verbatim>\<open>customDateTime: result.data.timestamp\<close>
  when the timestamp is truthy. The timestamp is stored as the service gave it, whether
  \<^verbatim>\<open>parseISO\<close> reads it as a date or not. The result is \<open>None\<close> where the source
  stores a value that is not a string (a name or a timestamp that is a number, a boolean,
  an array or an object), which \<^typ>\<open>TravelDocument\<close> cannot hold.
\<close>

definition updatesOfData :: "World \<Rightarrow> json \<Rightarrow> Updates option" where
  "updatesOfData w data =
     (case getProp data ''documentName'' of
        Some (JStr n) \<Rightarrow>
          (if truthy (getProp data ''timestamp'')
           then
             (case getProp data ''timestamp'' of
                Some (JStr t) \<Rightarrow>
                  Some (noUpdates\<lparr>displayName_u := Some n,
                                  customDateTime_u := Some (parseISO w t)\<rparr>)
              | _ \<Rightarrow> None)
           else Some (noUpdates\<lparr>displayName_u := Some n\<rparr>))
      | _ \<Rightarrow> None)"

text \<open>
  \<^verbatim>\<open>parseDocumentData(doc)\<close>: \<^verbatim>\<open>setParsingId(doc.id)\<close>, the parse, the update or the
  alert, and \<^verbatim>\<open>setParsingId(null)\<close> in \<^verbatim>\<open>finally\<close>. \<^verbatim>\<open>parseDocument\<close> catches every
  exception itself, so the \<^verbatim>\<open>catch\<close> of \<^verbatim>\<open>parseDocumentData\<close> is not entered. The
  result is \<open>None\<close> exactly where \<^const>\<open>updatesOfData\<close> is.
\<close>

definition parseDocumentData :: "World \<Rightarrow> TravelDocument \<Rightarrow> AppState \<Rightarrow> AppState option" where
  "parseDocumentData w doc st =
     (case fst (parseDocument w (file_d doc)) of
        Success data \<Rightarrow>
          (if truthy (Some data)
           then
             (case updatesOfData w data of
                Some updates \<Rightarrow>
                  Some (st\<lparr>documents := updateDocument (id_d doc) updates (documents st),
                           parsingId := None\<rparr>)
              | None \<Rightarrow> None)
           else Some (st\<lparr>alerts := alerts st @ [ParseFailedAlert None], parsingId := None\<rparr>))
      | Failure e \<Rightarrow>
          Some (st\<lparr>alerts := alerts st @ [ParseFailedAlert (Some e)], parsingId := None\<rparr>))"

section \<open>Example values\<close>

definition ticket :: File where
  "ticket = \<lparr>name_f = ''ticket.pdf'', type_f = ''application/pdf'', size_f = 2097152\<rparr>"

definition notesFile :: File where
  "notesFile = \<lparr>name_f = ''notes.txt'', type_f = ''text/plain'', size_f = 11534336\<rparr>"

definition docA :: TravelDocument where
  "docA = \<lparr>id_d = ''a'', file_d = ticket, displayName = ''ticket.pdf'',
           customDateTime = Some 10, uploadedAt = 1\<rparr>"

definition docB :: TravelDocument where
  "docB = \<lparr>id_d = ''b'', file_d = ticket, displayName = ''hotel.pdf'',
           customDateTime = Some 20, uploadedAt = 2\<rparr>"

definition docC :: TravelDocument where
  "docC = \<lparr>id_d = ''c'', file_d = ticket, displayName = ''visa.pdf'',
           customDateTime = Some 20, uploadedAt = 3\<rparr>"

definition payloadNoType :: json where
  "payloadNoType =
     JObj [(''documentName'', JStr ''Flight to Tokyo''), (''confidence'', JStr ''high'')]"

definition payloadCertain :: json where
  "payloadCertain =
     JObj [(''documentName'', JStr ''Flight to Tokyo''),
           (''documentType'', JStr ''Flight Ticket''), (''confidence'', JStr ''certain'')]"

text \<open>A payload that passes the validation, with a timestamp that is not a date.\<close>

definition payloadNextTuesday :: json where
  "payloadNextTuesday =
     JObj [(''documentName'', JStr ''Flight to Tokyo''),
           (''timestamp'', JStr ''next Tuesday''),
           (''documentType'', JStr ''Flight Ticket''), (''confidence'', JStr ''high'')]"

text \<open>
  A world in which the key is set, the file reads, the service answers \<open>payload\<close> and
  \<^verbatim>\<open>parseISO\<close> reads no string as a date.
\<close>

definition exampleWorld :: "json \<Rightarrow> World" where
  "exampleWorld payload =
     \<lparr>apiKey = Some ''sk-test'',
      readAsText = (\<lambda>f. Some ''Boarding pass''),
      createCompletion = (\<lambda>r. Resolves (Some ''response'')),
      jsonParse = (\<lambda>s. Some payload),
      parseISO = (\<lambda>s. None)\<rparr>"

definition exampleImageWorld :: ImageWorld where
  "exampleImageWorld =
     \<lparr>apiKey_i = Some ''sk-test'',
      fileToBase64 = (\<lambda>f. Some ''AAAA''),
      parseResponse = (\<lambda>r. ImageResolves None)\<rparr>"

definition st0 :: AppState where
  "st0 = \<lparr>documents = [], parsingId = None, alerts = []\<rparr>"

definition st1 :: AppState where
  "st1 = \<lparr>documents = [docA, docB], parsingId = None, alerts = []\<rparr>"

text \<open>A zone on UTC all year.\<close>

definition utcZone :: Zone where
  "utcZone = \<lparr>offsetAtUTC = (\<lambda>t. 0), offsetAtLocal = (\<lambda>t. 0)\<rparr>"


text \<open>
  Uploads of one day (in \<^const>\<open>utcZone\<close>, after midnight of day 0): each record gets
  the timestamp \<open>36000000\<close>, 10:00 of that day.
\<close>

definition uploadedDoc :: "string \<Rightarrow> int \<Rightarrow> TravelDocument" where
  "uploadedDoc documentId now = newDocument utcZone documentId now now ticket"

definition doUpload :: "string \<Rightarrow> int \<Rightarrow> AppState \<Rightarrow> AppState" where
  "doUpload documentId now st =
     handleFile pageMaxFileSize pageAcceptedFileTypes utcZone documentId now now ticket st"

definition threeUploads :: AppState where
  "threeUploads = doUpload ''c'' 3000 (doUpload ''b'' 2000 (doUpload ''a'' 1000 st0))"

definition sevenUploads :: AppState where
  "sevenUploads =
     doUpload ''g'' 7000 (doUpload ''f'' 6000 (doUpload ''e'' 5000 (doUpload ''d'' 4000 threeUploads)))"

text \<open>
  The record \<open>doc\<close> after a parse whose answer is \<^const>\<open>payloadNextTuesday\<close>.
\<close>

definition parsedNextTuesday :: "TravelDocument \<Rightarrow> TravelDocument" where
  "parsedNextTuesday doc = doc\<lparr>displayName := ''Flight to Tokyo'', customDateTime := None\<rparr>"


section \<open>Properties of the sort\<close>

subsection \<open>The sort permutes\<close>

lemma countRun_le: "countRun c d p xs \<le> length xs"
  by (induction xs arbitrary: p) (auto simp: Let_def)

lemma mset_take_drop: "mset (take n xs) + mset (drop n xs) = mset xs"
  by (metis append_take_drop_id mset_append)

lemma countAndMakeRun_shape:
  "\<exists>n. countAndMakeRun c xs = (take n xs, drop n xs)
     \<or> countAndMakeRun c xs = (rev (take n xs), drop n xs)"
proof (cases xs)
  case Nil
  then show ?thesis by (simp add: countAndMakeRun_def)
next
  case (Cons a ys)
  show ?thesis
  proof (cases ys)
    case Nil
    with Cons have "countAndMakeRun c xs = (take 1 xs, drop 1 xs)"
      by (simp add: countAndMakeRun_def)
    then show ?thesis by blast
  next
    case (Cons b zs)
    with \<open>xs = a # ys\<close> have xs: "xs = a # b # zs" by simp
    show ?thesis
    proof (cases "sortCompare c b a < 0")
      case True
      then have "countAndMakeRun c xs =
          (rev (take (2 + countRun c True b zs) xs), drop (2 + countRun c True b zs) xs)"
        unfolding xs countAndMakeRun_def by (simp add: Let_def)
      then show ?thesis by blast
    next
      case False
      then have "countAndMakeRun c xs =
          (take (2 + countRun c False b zs) xs, drop (2 + countRun c False b zs) xs)"
        unfolding xs countAndMakeRun_def by (simp add: Let_def)
      then show ?thesis by blast
    qed
  qed
qed

lemma mset_countAndMakeRun:
  assumes "countAndMakeRun c xs = (run, rest)"
  shows "mset run + mset rest = mset xs"
proof -
  from countAndMakeRun_shape [of c xs] obtain n where
    "countAndMakeRun c xs = (take n xs, drop n xs)
     \<or> countAndMakeRun c xs = (rev (take n xs), drop n xs)" ..
  with assms have "(run = take n xs \<or> run = rev (take n xs)) \<and> rest = drop n xs" by auto
  then show ?thesis by (auto simp: mset_take_drop)
qed

lemma mset_binaryInsert: "mset (binaryInsert c s p) = add_mset p (mset s)"
proof -
  have "mset (take n s @ p # drop n s) = add_mset p (mset (take n s) + mset (drop n s))" for n
    by simp
  then show ?thesis by (simp only: binaryInsert_def Let_def mset_take_drop)
qed

lemma mset_foldl_binaryInsert:
  "mset (foldl (binaryInsert c) run rest) = mset run + mset rest"
  by (induction rest arbitrary: run) (simp_all add: mset_binaryInsert)

lemma mset_sortBy: "mset (sortBy c xs) = mset xs"
proof (cases "length xs < 2")
  case True
  then show ?thesis by (simp add: sortBy_def)
next
  case False
  obtain run rest where r: "countAndMakeRun c xs = (run, rest)"
    by (cases "countAndMakeRun c xs")
  from False r show ?thesis
    by (simp add: sortBy_def mset_foldl_binaryInsert mset_countAndMakeRun)
qed

subsection \<open>A list in order is left alone\<close>

lemma countRun_ascending:
  "successively (\<lambda>x y. 0 \<le> sortCompare c y x) (p # xs) \<Longrightarrow> countRun c False p xs = length xs"
  by (induction xs arbitrary: p) (auto simp: Let_def)

lemma sortBy_in_order:
  assumes "successively (\<lambda>x y. 0 \<le> sortCompare c y x) xs"
  shows "sortBy c xs = xs"
proof (cases xs)
  case Nil
  then show ?thesis by (simp add: sortBy_def)
next
  case (Cons a ys)
  show ?thesis
  proof (cases ys)
    case Nil
    with Cons show ?thesis by (simp add: sortBy_def)
  next
    case (Cons b zs)
    with \<open>xs = a # ys\<close> assms have ab: "0 \<le> sortCompare c b a"
      and rest: "successively (\<lambda>x y. 0 \<le> sortCompare c y x) (b # zs)" by auto
    from rest have n: "countRun c False b zs = length zs" by (rule countRun_ascending)
    from ab n have "countAndMakeRun c (a # b # zs) = (a # b # zs, [])"
      by (simp add: countAndMakeRun_def Let_def)
    with Cons \<open>xs = a # ys\<close> show ?thesis by (simp add: sortBy_def)
  qed
qed


subsection \<open>With a consistent comparator the sort is the stable sort\<close>

text \<open>
  When the comparator is the difference of a key \<open>k\<close> on the elements of the list,
  the algorithm returns what any stable sort returns, \<^const>\<open>sort_key\<close> of the
  library among them.
\<close>

lemma binarySearch_spec:
  assumes "\<forall>x\<in>set (p # s). \<forall>y\<in>set (p # s). sortCompare c x y = k x - k y"
    and "sorted (map k s)" and "left \<le> right" and "right \<le> length s"
    and "\<forall>i<left. k (s ! i) \<le> k p"
    and "\<forall>i. right \<le> i \<and> i < length s \<longrightarrow> k p < k (s ! i)"
  shows "left \<le> binarySearch c p s left right \<and> binarySearch c p s left right \<le> right
     \<and> (\<forall>i<binarySearch c p s left right. k (s ! i) \<le> k p)
     \<and> (\<forall>i. binarySearch c p s left right \<le> i \<and> i < length s \<longrightarrow> k p < k (s ! i))"
  using assms
proof (induction c p s left right rule: binarySearch.induct)
  case (1 c p s left right)
  show ?case
  proof (cases "left < right")
    case False
    then have "binarySearch c p s left right = left"
      by (subst binarySearch.simps) simp
    with False "1.prems" show ?thesis by simp
  next
    case True
    define mid where "mid = left + (right - left) div 2"
    from True have m: "left \<le> mid" "mid < right" by (auto simp: mid_def)
    with "1.prems" have ml: "mid < length s" by simp
    then have "s ! mid \<in> set s" by simp
    with "1.prems"(1) have cmp: "sortCompare c p (s ! mid) = k p - k (s ! mid)" by simp
    show ?thesis
    proof (cases "sortCompare c p (s ! mid) < 0")
      case lt: True
      have up: "\<forall>i. mid \<le> i \<and> i < length s \<longrightarrow> k p < k (s ! i)"
      proof (intro allI impI)
        fix i assume i: "mid \<le> i \<and> i < length s"
        with "1.prems"(2) have "map k s ! mid \<le> map k s ! i"
          by (simp add: sorted_iff_nth_mono del: nth_map)
        with i ml have "k (s ! mid) \<le> k (s ! i)" by simp
        with lt cmp show "k p < k (s ! i)" by simp
      qed
      have e: "binarySearch c p s left right = binarySearch c p s left mid"
        using True lt by (simp add: binarySearch.simps [of c p s left right] mid_def Let_def)
      from "1.IH"(1) [OF True mid_def lt "1.prems"(1,2) m(1) _ "1.prems"(5) up] ml m
      show ?thesis unfolding e by auto
    next
      case ge: False
      have low: "\<forall>i<mid + 1. k (s ! i) \<le> k p"
      proof (intro allI impI)
        fix i assume i: "i < mid + 1"
        with "1.prems"(2) ml have "map k s ! i \<le> map k s ! mid"
          by (simp add: sorted_iff_nth_mono del: nth_map)
        with i ml have "k (s ! i) \<le> k (s ! mid)" by simp
        with ge cmp show "k (s ! i) \<le> k p" by simp
      qed
      have e: "binarySearch c p s left right = binarySearch c p s (mid + 1) right"
        using True ge by (simp add: binarySearch.simps [of c p s left right] mid_def Let_def)
      from m have mr: "mid + 1 \<le> right" by simp
      from "1.IH"(2) [OF True mid_def ge "1.prems"(1,2) mr "1.prems"(4) low "1.prems"(6)] m
      show ?thesis unfolding e by auto
    qed
  qed
qed

lemma binaryInsert_spec:
  assumes cons: "\<forall>x\<in>set (p # s). \<forall>y\<in>set (p # s). sortCompare c x y = k x - k y"
    and srt: "sorted (map k s)"
  shows "sorted (map k (binaryInsert c s p))
     \<and> filter (\<lambda>x. k x = v) (binaryInsert c s p) = filter (\<lambda>x. k x = v) (s @ [p])"
proof -
  define r where "r = binarySearch c p s 0 (length s)"
  from binarySearch_spec [OF cons srt, of 0 "length s"]
  have r: "r \<le> length s" "\<forall>i<r. k (s ! i) \<le> k p"
    "\<forall>i. r \<le> i \<and> i < length s \<longrightarrow> k p < k (s ! i)"
    by (simp_all add: r_def)
  have lo: "\<forall>x\<in>set (take r s). k x \<le> k p"
  proof
    fix x assume "x \<in> set (take r s)"
    then obtain i where "i < length (take r s)" "take r s ! i = x"
      by (auto simp: in_set_conv_nth)
    with r show "k x \<le> k p" by auto
  qed
  have hi: "\<forall>x\<in>set (drop r s). k p < k x"
  proof
    fix x assume "x \<in> set (drop r s)"
    then obtain i where "i < length (drop r s)" "drop r s ! i = x"
      by (auto simp: in_set_conv_nth)
    with r show "k p < k x" by auto
  qed
  have st: "sorted (map k (take r s))" "sorted (map k (drop r s))"
    using srt by (simp_all add: take_map [symmetric] drop_map [symmetric] sorted_wrt_take sorted_wrt_drop)
  have e: "binaryInsert c s p = take r s @ p # drop r s"
    by (simp add: binaryInsert_def r_def Let_def)
  have s1: "sorted (map k (take r s @ p # drop r s))"
    using st lo hi by (fastforce simp: sorted_append)
  have "filter (\<lambda>x. k x = v) (take r s @ p # drop r s) =
        filter (\<lambda>x. k x = v) ((take r s @ drop r s) @ [p])"
  proof (cases "v = k p")
    case True
    with hi have "filter (\<lambda>x. k x = v) (drop r s) = []" by (auto simp: filter_empty_conv)
    then show ?thesis by (simp del: append_take_drop_id)
  next
    case False
    then show ?thesis by (simp del: append_take_drop_id)
  qed
  then have "filter (\<lambda>x. k x = v) (take r s @ p # drop r s) = filter (\<lambda>x. k x = v) (s @ [p])"
    by (simp only: append_take_drop_id)
  with s1 show ?thesis unfolding e by blast
qed

lemma set_binaryInsert: "set (binaryInsert c s p) = insert p (set s)"
  using mset_binaryInsert [of c s p] by (metis set_mset_add_mset_insert set_mset_mset)

lemma foldl_binaryInsert_spec:
  assumes "\<forall>x\<in>set (run @ rest). \<forall>y\<in>set (run @ rest). sortCompare c x y = k x - k y"
    and "sorted (map k run)"
  shows "sorted (map k (foldl (binaryInsert c) run rest))
     \<and> filter (\<lambda>x. k x = v) (foldl (binaryInsert c) run rest) =
         filter (\<lambda>x. k x = v) (run @ rest)"
  using assms
proof (induction rest arbitrary: run)
  case Nil
  then show ?case by simp
next
  case (Cons p rest)
  from Cons.prems(1) have c1: "\<forall>x\<in>set (p # run). \<forall>y\<in>set (p # run). sortCompare c x y = k x - k y"
    by auto
  note bi = binaryInsert_spec [OF c1 Cons.prems(2)]
  have c2: "\<forall>x\<in>set (binaryInsert c run p @ rest). \<forall>y\<in>set (binaryInsert c run p @ rest).
      sortCompare c x y = k x - k y"
    using Cons.prems(1) by (auto simp: set_binaryInsert)
  from bi have s: "sorted (map k (binaryInsert c run p))" by blast
  from bi [of v] have f: "filter (\<lambda>x. k x = v) (binaryInsert c run p) =
      filter (\<lambda>x. k x = v) (run @ [p])" by blast
  from Cons.IH [OF c2 s] f show ?case by simp
qed

lemma countRun_ascending_sorted:
  assumes "\<forall>x\<in>set (p # xs). \<forall>y\<in>set (p # xs). sortCompare c x y = k x - k y"
  shows "sorted (map k (p # take (countRun c False p xs) xs))"
  using assms
proof (induction xs arbitrary: p)
  case Nil
  then show ?case by simp
next
  case (Cons x xs)
  from Cons.prems have cmp: "sortCompare c x p = k x - k p" by simp
  from Cons.prems have "\<forall>a\<in>set (x # xs). \<forall>b\<in>set (x # xs). sortCompare c a b = k a - k b"
    by auto
  from Cons.IH [OF this] cmp show ?case by (auto simp: Let_def)
qed

lemma countRun_descending_strict:
  assumes "\<forall>x\<in>set (p # xs). \<forall>y\<in>set (p # xs). sortCompare c x y = k x - k y"
  shows "sorted_wrt (\<lambda>a b. k b < k a) (p # take (countRun c True p xs) xs)"
  using assms
proof (induction xs arbitrary: p)
  case Nil
  then show ?case by simp
next
  case (Cons x xs)
  from Cons.prems have cmp: "sortCompare c x p = k x - k p" by simp
  from Cons.prems have "\<forall>a\<in>set (x # xs). \<forall>b\<in>set (x # xs). sortCompare c a b = k a - k b"
    by auto
  from Cons.IH [OF this] cmp show ?case by (fastforce simp: Let_def)
qed

lemma filter_rev_strict:
  fixes k :: "'a \<Rightarrow> int"
  shows "sorted_wrt (\<lambda>a b. k b < k a) xs \<Longrightarrow>
   filter (\<lambda>x. k x = v) (rev xs) = filter (\<lambda>x. k x = v) xs"
proof (induction xs)
  case Nil
  then show ?case by simp
next
  case (Cons a xs)
  show ?case
  proof (cases "k a = v")
    case True
    with Cons.prems have "filter (\<lambda>x. k x = v) xs = []" by (auto simp: filter_empty_conv)
    with Cons True show ?thesis by simp
  next
    case False
    with Cons show ?thesis by simp
  qed
qed

lemma countAndMakeRun_spec:
  assumes cons: "\<forall>x\<in>set xs. \<forall>y\<in>set xs. sortCompare c x y = k x - k y"
    and r: "countAndMakeRun c xs = (run, rest)"
  shows "sorted (map k run) \<and> filter (\<lambda>x. k x = v) (run @ rest) = filter (\<lambda>x. k x = v) xs"
proof (cases xs)
  case Nil
  with r show ?thesis by (simp add: countAndMakeRun_def)
next
  case (Cons a ys)
  show ?thesis
  proof (cases ys)
    case Nil
    with Cons r show ?thesis by (auto simp: countAndMakeRun_def)
  next
    case (Cons b zs)
    with \<open>xs = a # ys\<close> have xs: "xs = a # b # zs" by simp
    from cons xs have cmp: "sortCompare c b a = k b - k a" by simp
    from cons xs have c2: "\<forall>x\<in>set (b # zs). \<forall>y\<in>set (b # zs). sortCompare c x y = k x - k y"
      by auto
    show ?thesis
    proof (cases "sortCompare c b a < 0")
      case True
      define n where "n = countRun c True b zs"
      from True r have run: "run = rev (a # b # take n zs)" and rest: "rest = drop n zs"
        unfolding xs countAndMakeRun_def n_def by (simp_all add: Let_def)
      from countRun_descending_strict [OF c2] have d: "sorted_wrt (\<lambda>a b. k b < k a) (b # take n zs)"
        by (simp add: n_def)
      with True cmp have d2: "sorted_wrt (\<lambda>a b. k b < k a) (a # b # take n zs)"
        by fastforce
      then have "sorted_wrt (\<lambda>a b. k a < k b) (rev (a # b # take n zs))"
        by (simp only: sorted_wrt_rev)
      then have "sorted_wrt (\<lambda>a b. k a \<le> k b) (rev (a # b # take n zs))"
        by (rule sorted_wrt_mono_rel [rotated]) simp
      then have s: "sorted (map k run)" by (simp only: run sorted_map)
      have "filter (\<lambda>x. k x = v) (run @ rest) =
            filter (\<lambda>x. k x = v) (a # b # take n zs) @ filter (\<lambda>x. k x = v) (drop n zs)"
        unfolding run rest filter_append by (simp only: filter_rev_strict [OF d2])
      also have "\<dots> = filter (\<lambda>x. k x = v) (a # b # (take n zs @ drop n zs))"
        by (simp del: append_take_drop_id)
      finally have "filter (\<lambda>x. k x = v) (run @ rest) = filter (\<lambda>x. k x = v) xs"
        by (simp only: append_take_drop_id xs)
      with s show ?thesis by blast
    next
      case False
      define n where "n = countRun c False b zs"
      from False r have run: "run = a # b # take n zs" and rest: "rest = drop n zs"
        unfolding xs countAndMakeRun_def n_def by (simp_all add: Let_def)
      from countRun_ascending_sorted [OF c2] have "sorted (map k (b # take n zs))"
        by (simp add: n_def)
      with False cmp have s: "sorted (map k run)" by (auto simp: run)
      have "run @ rest = xs" by (simp add: run rest xs)
      with s show ?thesis by simp
    qed
  qed
qed

lemma sortBy_consistent:
  assumes cons: "\<forall>x\<in>set xs. \<forall>y\<in>set xs. sortCompare c x y = k x - k y"
  shows "sortBy c xs = sort_key k xs"
proof (cases "length xs < 2")
  case True
  then have "xs = [] \<or> (\<exists>a. xs = [a])"
    by (cases xs) (auto simp: length_Suc_conv)
  then show ?thesis by (auto simp: sortBy_def)
next
  case False
  obtain run rest where r: "countAndMakeRun c xs = (run, rest)"
    by (cases "countAndMakeRun c xs")
  from False r have e: "sortBy c xs = foldl (binaryInsert c) run rest"
    by (simp add: sortBy_def)
  from mset_countAndMakeRun [OF r] have "set (run @ rest) = set xs"
    by (metis mset_append set_mset_mset)
  with cons have c2: "\<forall>x\<in>set (run @ rest). \<forall>y\<in>set (run @ rest). sortCompare c x y = k x - k y"
    by simp
  from countAndMakeRun_spec [OF cons r] have s0: "sorted (map k run)" by blast
  show ?thesis
  proof (rule sym, rule properties_for_sort_key)
    show "mset (sortBy c xs) = mset xs" by (rule mset_sortBy)
    show "sorted (map k (sortBy c xs))"
      unfolding e using foldl_binaryInsert_spec [OF c2 s0] by blast
    fix x
    have "filter (\<lambda>y. k y = k x) (sortBy c xs) = filter (\<lambda>y. k y = k x) (run @ rest)"
      unfolding e using foldl_binaryInsert_spec [OF c2 s0, of "k x"] by blast
    also have "\<dots> = filter (\<lambda>y. k y = k x) xs"
      using countAndMakeRun_spec [OF cons r, of "k x"] by blast
    finally show "filter (\<lambda>y. k x = k y) (sortBy c xs) = filter (\<lambda>y. k x = k y) xs"
      by (simp only: eq_commute [of "k x"])
  qed
qed

subsection \<open>Sorting documents\<close>

lemma set_sortBy: "set (sortBy c xs) = set xs"
  using mset_sortBy [of c xs] by (metis set_mset_mset)

lemma length_sortBy: "length (sortBy c xs) = length xs"
  using mset_sortBy [of c xs] by (metis size_mset)

lemma sortCompare_sorted:
  "customDateTime x \<le> customDateTime y \<Longrightarrow> 0 \<le> sortCompare compareByDateTime y x"
  by (cases "customDateTime x"; cases "customDateTime y")
    (simp_all add: sortCompare_def compareByDateTime_def)

lemma successively_sorted:
  "sorted (map customDateTime xs) \<Longrightarrow>
   successively (\<lambda>x y. 0 \<le> sortCompare compareByDateTime y x) xs"
  by (induction xs rule: induct_list012) (simp_all add: sortCompare_sorted)

lemma sortBy_sorted_id:
  "sorted (map customDateTime xs) \<Longrightarrow> sortBy compareByDateTime xs = xs"
  by (rule sortBy_in_order) (rule successively_sorted)

lemma sortCompare_readable:
  assumes "None \<notin> customDateTime ` set xs" and "x \<in> set xs" and "y \<in> set xs"
  shows "sortCompare compareByDateTime x y = the (customDateTime x) - the (customDateTime y)"
proof -
  from assms obtain tx ty where "customDateTime x = Some tx" "customDateTime y = Some ty"
    by (metis image_eqI not_None_eq)
  then show ?thesis by (simp add: sortCompare_def compareByDateTime_def)
qed

lemma sorted_map_Some: "sorted (map Some ts) = sorted ts"
  by (induction ts) auto

lemma readable_map:
  "None \<notin> customDateTime ` set xs \<Longrightarrow>
   map customDateTime xs = map Some (map (\<lambda>d. the (customDateTime d)) xs)"
  by (induction xs) auto

lemma sorted_sortBy_readable:
  assumes "None \<notin> customDateTime ` set xs"
  shows "sorted (map customDateTime (sortBy compareByDateTime xs))"
proof -
  let ?k = "\<lambda>d. the (customDateTime d)"
  have e: "sortBy compareByDateTime xs = sort_key ?k xs"
    by (rule sortBy_consistent) (simp add: sortCompare_readable [OF assms])
  from assms have "None \<notin> customDateTime ` set (sortBy compareByDateTime xs)"
    by (simp add: set_sortBy)
  from readable_map [OF this]
  have "map customDateTime (sortBy compareByDateTime xs) =
        map Some (map ?k (sortBy compareByDateTime xs))" .
  then show ?thesis by (simp only: sorted_map_Some e sorted_sort_key)
qed

lemma stable_sortBy_readable:
  assumes "None \<notin> customDateTime ` set xs"
  shows "filter (\<lambda>d. customDateTime d = Some t) (sortBy compareByDateTime xs) =
         filter (\<lambda>d. customDateTime d = Some t) xs"
proof -
  let ?k = "\<lambda>d. the (customDateTime d)"
  have e: "sortBy compareByDateTime xs = sort_key ?k xs"
    by (rule sortBy_consistent) (simp add: sortCompare_readable [OF assms])
  have c: "filter (\<lambda>d. customDateTime d = Some t) ys = filter (\<lambda>d. ?k d = t) ys"
    if "None \<notin> customDateTime ` set ys" for ys
    using that by (induction ys) auto
  from assms have r: "None \<notin> customDateTime ` set (sortBy compareByDateTime xs)"
    by (simp add: set_sortBy)
  have "filter (\<lambda>d. customDateTime d = Some t) (sortBy compareByDateTime xs) =
        filter (\<lambda>d. ?k d = t) (sortBy compareByDateTime xs)"
    by (rule c [OF r])
  also have "\<dots> = filter (\<lambda>d. ?k d = t) (sort_key ?k xs)"
    by (simp only: e)
  also have "\<dots> = filter (\<lambda>d. ?k d = t) xs"
    by (rule sort_key_stable)
  also have "\<dots> = filter (\<lambda>d. customDateTime d = Some t) xs"
    by (rule c [OF assms, symmetric])
  finally show ?thesis .
qed

section \<open>The store while every timestamp is readable\<close>

lemma readable_spread:
  "customDateTime_u u \<noteq> Some None \<Longrightarrow> customDateTime d \<noteq> None \<Longrightarrow>
   customDateTime (spread d u) \<noteq> None"
  by (cases "customDateTime_u u") (auto simp: spread_def)

lemma readable_update_map:
  assumes "None \<notin> customDateTime ` set docs" and "customDateTime_u u \<noteq> Some None"
  shows "None \<notin> customDateTime `
           set (map (\<lambda>doc. if id_d doc = i then spread doc u else doc) docs)"
proof
  assume "None \<in> customDateTime `
           set (map (\<lambda>doc. if id_d doc = i then spread doc u else doc) docs)"
  then obtain d where d: "d \<in> set docs"
    and n: "customDateTime (if id_d d = i then spread d u else d) = None"
    by (force simp: image_iff)
  from d assms(1) have r: "customDateTime d \<noteq> None" by (metis image_eqI)
  with n readable_spread [OF assms(2) r] show False by (cases "id_d d = i") simp_all
qed

lemma readable_apply_op:
  assumes "readableOp x" and "None \<notin> customDateTime ` set docs"
  shows "None \<notin> customDateTime ` set (apply_op z x docs)"
proof (cases x)
  case (Add documentId today uploaded f)
  with assms show ?thesis
    by (auto simp: handleFileAdded_def set_sortBy newDocument_def)
next
  case (Update i u)
  with assms have "customDateTime_u u \<noteq> Some None" by simp
  from readable_update_map [OF assms(2) this, of i] Update show ?thesis
    by (simp add: updateDocument_def set_sortBy)
next
  case (Remove i)
  with assms show ?thesis by (auto simp: deleteDocument_def)
qed

lemma sorted_apply_op:
  assumes "readableOp x" and "None \<notin> customDateTime ` set docs"
    and "sorted (map customDateTime docs)"
  shows "sorted (map customDateTime (apply_op z x docs))"
proof (cases x)
  case (Add documentId today uploaded f)
  from assms(2) have "None \<notin> customDateTime ` set (docs @ [newDocument z documentId today uploaded f])"
    by (auto simp: newDocument_def)
  with Add show ?thesis by (simp add: handleFileAdded_def sorted_sortBy_readable)
next
  case (Update i u)
  with assms have "customDateTime_u u \<noteq> Some None" by simp
  from readable_update_map [OF assms(2) this, of i] Update show ?thesis
    by (simp add: updateDocument_def sorted_sortBy_readable)
next
  case (Remove i)
  with assms(3) show ?thesis by (simp add: deleteDocument_def sorted_filter)
qed

text \<open>
  As long as no operation stores a timestamp that is not a date, every list reached from
  the empty store is sorted, and all its timestamps are readable.
\<close>

lemma readable_store_sorted:
  assumes "list_all readableOp ops" and "None \<notin> customDateTime ` set docs"
    and "sorted (map customDateTime docs)"
  shows "None \<notin> customDateTime ` set (run_ops z ops docs)
     \<and> sorted (map customDateTime (run_ops z ops docs))"
  using assms
proof (induction ops arbitrary: docs)
  case Nil
  then show ?case by simp
next
  case (Cons x ops)
  from Cons.prems have x: "readableOp x" and ops: "list_all readableOp ops" by simp_all
  from Cons.IH [OF ops readable_apply_op [OF x Cons.prems(2)]
      sorted_apply_op [OF x Cons.prems(2,3)]]
  show ?case by simp
qed

text \<open>
  And the records of one timestamp keep their order: under adds they stand in the order
  of insertion, and an update of a list whose timestamps stay readable does not reorder
  them.
\<close>

lemma readable_adds_stable:
  assumes "None \<notin> customDateTime ` set docs"
  shows "filter (\<lambda>d. customDateTime d = Some t) (run_ops z (map addOp uploads) docs) =
         filter (\<lambda>d. customDateTime d = Some t) (docs @ map (documentOf z) uploads)"
  using assms
proof (induction uploads arbitrary: docs)
  case Nil
  then show ?case by simp
next
  case (Cons a uploads)
  obtain documentId today uploaded f where a: "a = (documentId, today, uploaded, f)"
    by (cases a) auto
  let ?new = "newDocument z documentId today uploaded f"
  from Cons.prems have r: "None \<notin> customDateTime ` set (docs @ [?new])"
    by (auto simp: newDocument_def)
  then have r2: "None \<notin> customDateTime ` set (handleFileAdded z documentId today uploaded f docs)"
    by (simp add: handleFileAdded_def set_sortBy)
  have "filter (\<lambda>d. customDateTime d = Some t) (run_ops z (map addOp (a # uploads)) docs) =
        filter (\<lambda>d. customDateTime d = Some t)
          (handleFileAdded z documentId today uploaded f docs @ map (documentOf z) uploads)"
    using Cons.IH [OF r2] by (simp add: a)
  also have "\<dots> = filter (\<lambda>d. customDateTime d = Some t)
          ((docs @ [?new]) @ map (documentOf z) uploads)"
    by (simp only: filter_append handleFileAdded_def stable_sortBy_readable [OF r])
  finally show ?case by (simp add: a)
qed

lemma readable_update_stable:
  assumes "None \<notin> customDateTime ` set docs" and "customDateTime_u u \<noteq> Some None"
  shows "filter (\<lambda>d. customDateTime d = Some t) (updateDocument i u docs) =
         filter (\<lambda>d. customDateTime d = Some t)
           (map (\<lambda>doc. if id_d doc = i then spread doc u else doc) docs)"
proof -
  from readable_update_map [OF assms, of i]
  show ?thesis unfolding updateDocument_def by (rule stable_sortBy_readable)
qed

section \<open>A timestamp that is not a date\<close>

lemma todayAt10AM_utcZone:
  "0 \<le> n \<Longrightarrow> n < 86400000 \<Longrightarrow> todayAt10AM utcZone n = 36000000"
  by (simp add: todayAt10AM_def setHours_def setMinutes_def startOfDay_def localTime_def
        utcTime_def utcZone_def dayOf_def hourFromTime_def minFromTime_def secFromTime_def
        msFromTime_def)

lemma uploaded_fields: "id_d (uploadedDoc i n) = i" "file_d (uploadedDoc i n) = ticket"
  by (simp_all add: uploadedDoc_def newDocument_def)

lemma uploaded_time:
  "0 \<le> n \<Longrightarrow> n < 86400000 \<Longrightarrow> customDateTime (uploadedDoc i n) = Some 36000000"
  by (simp add: uploadedDoc_def newDocument_def todayAt10AM_utcZone)

lemma ticket_valid: "isValid (validateFile pageMaxFileSize pageAcceptedFileTypes ticket)"
  by (simp add: validateFile_def pageMaxFileSize_def pageAcceptedFileTypes_def ticket_def
        firstIsNotWildcard_def)

lemma documents_upload:
  "documents (doUpload i n st) = sortBy compareByDateTime (documents st @ [uploadedDoc i n])"
  by (simp add: doUpload_def handleFile_def ticket_valid handleFileAdded_def uploadedDoc_def)

lemmas sort_eval = sortBy_def countAndMakeRun_def sortCompare_def compareByDateTime_def
  binaryInsert_def binarySearch.simps Let_def

lemma documents_threeUploads:
  "documents threeUploads = [uploadedDoc ''a'' 1000, uploadedDoc ''b'' 2000, uploadedDoc ''c'' 3000]"
  by (simp add: threeUploads_def documents_upload st0_def sort_eval uploaded_time)

lemma documents_sevenUploads:
  "documents sevenUploads =
     [uploadedDoc ''a'' 1000, uploadedDoc ''b'' 2000, uploadedDoc ''c'' 3000, uploadedDoc ''d'' 4000,
      uploadedDoc ''e'' 5000, uploadedDoc ''f'' 6000, uploadedDoc ''g'' 7000]"
  by (simp add: sevenUploads_def documents_upload documents_threeUploads sort_eval
        uploaded_time)

lemma parse_ticket:
  "fst (parseDocument (exampleWorld payloadNextTuesday) ticket) = Success payloadNextTuesday"
  by (simp add: parseDocument_def parseFileWithGPT_def exampleWorld_def payloadNextTuesday_def
        validatePayload_def ticket_def isFileTypeSupported_def supportedTypes_def
        maxSizeForParsing_def readFileAsText_def truncateContent_def)

lemma truthy_nextTuesday: "truthy (Some payloadNextTuesday)"
  by (simp add: payloadNextTuesday_def)

lemma updates_nextTuesday:
  "updatesOfData (exampleWorld payloadNextTuesday) payloadNextTuesday =
     Some (noUpdates\<lparr>displayName_u := Some ''Flight to Tokyo'',
                     customDateTime_u := Some None\<rparr>)"
  by (simp add: updatesOfData_def payloadNextTuesday_def exampleWorld_def)

lemma spread_nextTuesday:
  "spread doc (noUpdates\<lparr>displayName_u := Some ''Flight to Tokyo'',
                         customDateTime_u := Some None\<rparr>) = parsedNextTuesday doc"
  by (simp add: spread_def noUpdates_def parsedNextTuesday_def)

lemma parsed_fields:
  "id_d (parsedNextTuesday doc) = id_d doc" "customDateTime (parsedNextTuesday doc) = None"
  by (simp_all add: parsedNextTuesday_def)

lemmas parse_eval = parseDocumentData_def uploaded_fields parse_ticket truthy_nextTuesday
  updates_nextTuesday updateDocument_def spread_nextTuesday parsed_fields uploaded_time

text \<open>
  Claim C1 fails on the code. Three files are uploaded on one day; the second is parsed
  and the service answers with the timestamp \<^verbatim>\<open>next Tuesday\<close>, which passes the
  validation of \<^verbatim>\<open>parseFileWithGPT\<close> and is stored by \<^verbatim>\<open>parseDocumentData\<close>; then the
  date of the third is set to the day before. The comparator is \<^verbatim>\<open>NaN\<close> against the
  second record, the sort leaves the list as it stands, and the first record (10:00 of
  day 0) is in front of the third (10:00 of the day before).
\<close>

theorem unreadable_timestamp_breaks_order:
  "documents threeUploads = [uploadedDoc ''a'' 1000, uploadedDoc ''b'' 2000, uploadedDoc ''c'' 3000]
   \<and> map_option documents
        (parseDocumentData (exampleWorld payloadNextTuesday) (uploadedDoc ''b'' 2000) threeUploads) =
       Some [uploadedDoc ''a'' 1000, parsedNextTuesday (uploadedDoc ''b'' 2000), uploadedDoc ''c'' 3000]
   \<and> updateDocument ''c'' (noUpdates\<lparr>customDateTime_u := Some (Some (- 50400000))\<rparr>)
        [uploadedDoc ''a'' 1000, parsedNextTuesday (uploadedDoc ''b'' 2000), uploadedDoc ''c'' 3000] =
       [uploadedDoc ''a'' 1000, parsedNextTuesday (uploadedDoc ''b'' 2000),
        (uploadedDoc ''c'' 3000)\<lparr>customDateTime := Some (- 50400000)\<rparr>]
   \<and> customDateTime (uploadedDoc ''a'' 1000) = Some 36000000
   \<and> \<not> sorted (map customDateTime
          [uploadedDoc ''a'' 1000, parsedNextTuesday (uploadedDoc ''b'' 2000),
           (uploadedDoc ''c'' 3000)\<lparr>customDateTime := Some (- 50400000)\<rparr>])"
proof -
  have "map_option documents
        (parseDocumentData (exampleWorld payloadNextTuesday) (uploadedDoc ''b'' 2000) threeUploads) =
       Some [uploadedDoc ''a'' 1000, parsedNextTuesday (uploadedDoc ''b'' 2000), uploadedDoc ''c'' 3000]"
    by (simp add: parse_eval documents_threeUploads sort_eval)
  moreover have
    "updateDocument ''c'' (noUpdates\<lparr>customDateTime_u := Some (Some (- 50400000))\<rparr>)
        [uploadedDoc ''a'' 1000, parsedNextTuesday (uploadedDoc ''b'' 2000), uploadedDoc ''c'' 3000] =
       [uploadedDoc ''a'' 1000, parsedNextTuesday (uploadedDoc ''b'' 2000),
        (uploadedDoc ''c'' 3000)\<lparr>customDateTime := Some (- 50400000)\<rparr>]"
    by (simp add: updateDocument_def uploaded_fields parsed_fields spread_def noUpdates_def
          sort_eval uploaded_time)
  moreover have "\<not> sorted (map customDateTime
          [uploadedDoc ''a'' 1000, parsedNextTuesday (uploadedDoc ''b'' 2000),
           (uploadedDoc ''c'' 3000)\<lparr>customDateTime := Some (- 50400000)\<rparr>])"
    by (simp add: uploaded_time parsed_fields)
  ultimately show ?thesis by (simp add: documents_threeUploads uploaded_time)
qed

text \<open>
  Claim C2 fails on the code, from the same defect. Seven files are uploaded on one day,
  so all seven records have one timestamp and stand in the order of insertion; the third
  is parsed and the service answers \<^verbatim>\<open>next Tuesday\<close>; then the date of the first is
  set to the next day. The sort finds the descending run of the first two records,
  reverses it and inserts the others by binary search, where the search for the place of
  the seventh record meets only the moved first record and two records of its own
  timestamp: the seventh record ends in front of the sixth, which was inserted before it
  and has the same timestamp.
\<close>

theorem unreadable_timestamp_reorders_ties:
  "documents sevenUploads =
     [uploadedDoc ''a'' 1000, uploadedDoc ''b'' 2000, uploadedDoc ''c'' 3000, uploadedDoc ''d'' 4000,
      uploadedDoc ''e'' 5000, uploadedDoc ''f'' 6000, uploadedDoc ''g'' 7000]
   \<and> map_option documents
        (parseDocumentData (exampleWorld payloadNextTuesday) (uploadedDoc ''c'' 3000) sevenUploads) =
       Some [uploadedDoc ''a'' 1000, uploadedDoc ''b'' 2000, parsedNextTuesday (uploadedDoc ''c'' 3000),
             uploadedDoc ''d'' 4000, uploadedDoc ''e'' 5000, uploadedDoc ''f'' 6000, uploadedDoc ''g'' 7000]
   \<and> updateDocument ''a'' (noUpdates\<lparr>customDateTime_u := Some (Some 122400000)\<rparr>)
        [uploadedDoc ''a'' 1000, uploadedDoc ''b'' 2000, parsedNextTuesday (uploadedDoc ''c'' 3000),
         uploadedDoc ''d'' 4000, uploadedDoc ''e'' 5000, uploadedDoc ''f'' 6000, uploadedDoc ''g'' 7000] =
       [uploadedDoc ''b'' 2000, uploadedDoc ''d'' 4000, uploadedDoc ''e'' 5000, uploadedDoc ''g'' 7000,
        (uploadedDoc ''a'' 1000)\<lparr>customDateTime := Some 122400000\<rparr>,
        parsedNextTuesday (uploadedDoc ''c'' 3000), uploadedDoc ''f'' 6000]
   \<and> customDateTime (uploadedDoc ''f'' 6000) = Some 36000000
   \<and> customDateTime (uploadedDoc ''g'' 7000) = Some 36000000"
proof -
  have "map_option documents
        (parseDocumentData (exampleWorld payloadNextTuesday) (uploadedDoc ''c'' 3000) sevenUploads) =
       Some [uploadedDoc ''a'' 1000, uploadedDoc ''b'' 2000, parsedNextTuesday (uploadedDoc ''c'' 3000),
             uploadedDoc ''d'' 4000, uploadedDoc ''e'' 5000, uploadedDoc ''f'' 6000, uploadedDoc ''g'' 7000]"
    by (simp add: parse_eval documents_sevenUploads sort_eval)
  moreover have
    "updateDocument ''a'' (noUpdates\<lparr>customDateTime_u := Some (Some 122400000)\<rparr>)
        [uploadedDoc ''a'' 1000, uploadedDoc ''b'' 2000, parsedNextTuesday (uploadedDoc ''c'' 3000),
         uploadedDoc ''d'' 4000, uploadedDoc ''e'' 5000, uploadedDoc ''f'' 6000, uploadedDoc ''g'' 7000] =
       [uploadedDoc ''b'' 2000, uploadedDoc ''d'' 4000, uploadedDoc ''e'' 5000, uploadedDoc ''g'' 7000,
        (uploadedDoc ''a'' 1000)\<lparr>customDateTime := Some 122400000\<rparr>,
        parsedNextTuesday (uploadedDoc ''c'' 3000), uploadedDoc ''f'' 6000]"
    by (simp add: updateDocument_def uploaded_fields parsed_fields spread_def noUpdates_def
          sort_eval uploaded_time)
  ultimately show ?thesis by (simp add: documents_sevenUploads uploaded_time)
qed


section \<open>What an update leaves alone\<close>

lemma mset_update_split:
  "mset (map (\<lambda>doc. if id_d doc = i then spread doc u else doc) docs) =
   mset (filter (\<lambda>d. id_d d \<noteq> i) docs) +
   mset (map (\<lambda>d. spread d u) (filter (\<lambda>d. id_d d = i) docs))"
  by (induction docs) simp_all

text \<open>
  Claim C10. An update for id \<open>i\<close> changes at most the records whose id is \<open>i\<close>:
  the new list holds every record of another id as it was, all five fields equal, with
  its multiplicity, next to the updated records of id \<open>i\<close>; the list keeps its length,
  and only positions may differ.
\<close>

theorem update_changes_only_matching_record:
  "mset (updateDocument i u docs) =
     mset (filter (\<lambda>d. id_d d \<noteq> i) docs) +
     mset (map (\<lambda>d. spread d u) (filter (\<lambda>d. id_d d = i) docs))
   \<and> length (updateDocument i u docs) = length docs
   \<and> (\<forall>d \<in> set docs. id_d d \<noteq> i \<longrightarrow> d \<in> set (updateDocument i u docs))"
proof -
  have m: "mset (updateDocument i u docs) =
     mset (filter (\<lambda>d. id_d d \<noteq> i) docs) +
     mset (map (\<lambda>d. spread d u) (filter (\<lambda>d. id_d d = i) docs))"
    by (simp only: updateDocument_def mset_sortBy mset_update_split)
  have l: "length (updateDocument i u docs) = length docs"
    by (simp add: updateDocument_def length_sortBy)
  have "\<forall>d \<in> set docs. id_d d \<noteq> i \<longrightarrow> d \<in> set (updateDocument i u docs)"
    by (auto simp: updateDocument_def set_sortBy)
  with m l show ?thesis by blast
qed

theorem update_changes_only_matching_record_witness:
  "docB \<in> set (updateDocument ''a'' (noUpdates\<lparr>customDateTime_u := Some (Some 30)\<rparr>) [docA, docB])
   \<and> length (updateDocument ''a'' (noUpdates\<lparr>customDateTime_u := Some (Some 30)\<rparr>) [docA, docB]) = 2"
  using update_changes_only_matching_record
          [of "''a''" "noUpdates\<lparr>customDateTime_u := Some (Some 30)\<rparr>" "[docA, docB]"]
  by (simp add: docA_def docB_def)

section \<open>Operations on an id that is not in the store\<close>

lemma filter_absent_id:
  "i \<notin> id_d ` set docs \<Longrightarrow> filter (\<lambda>doc. id_d doc \<noteq> i) docs = docs"
  by (induction docs) auto

lemma map_absent_id:
  "i \<notin> id_d ` set docs \<Longrightarrow>
   map (\<lambda>doc. if id_d doc = i then spread doc u else doc) docs = docs"
  by (induction docs) auto

lemma updateDocument_absent:
  "i \<notin> id_d ` set docs \<Longrightarrow> sorted (map customDateTime docs) \<Longrightarrow>
   updateDocument i u docs = docs"
  by (simp add: updateDocument_def map_absent_id sortBy_sorted_id)

text \<open>
  Claim C3, as stated, fails: an update for an id that is not in the store signals
  nothing. The call returns \<^verbatim>\<open>undefined\<close> like every other call of the handler, and the
  list is as it was.
\<close>

theorem update_absent_id_counterexample:
  "call_updateDocument ''ghost'' (noUpdates\<lparr>displayName_u := Some ''x''\<rparr>) [docA, docB] =
     (ReturnsUndefined, [docA, docB])"
  by (simp add: call_updateDocument_def updateDocument_def sort_eval docA_def docB_def)

text \<open>
  Claim C3, amended. For every id that is not in the store, an update completes without
  signalling an error and leaves the (sorted) list exactly as it was.
\<close>

theorem update_absent_id_silent:
  assumes "i \<notin> id_d ` set docs" and "sorted (map customDateTime docs)"
  shows "call_updateDocument i u docs = (ReturnsUndefined, docs)"
  using assms by (simp add: call_updateDocument_def updateDocument_absent)

theorem update_absent_id_silent_witness:
  "''ghost'' \<notin> id_d ` set [docA, docB] \<and> sorted (map customDateTime [docA, docB])
   \<and> call_updateDocument ''ghost'' (noUpdates\<lparr>customDateTime_u := Some (Some 15)\<rparr>) [docA, docB] =
       (ReturnsUndefined, [docA, docB])"
proof -
  have a: "''ghost'' \<notin> id_d ` set [docA, docB]" by (simp add: docA_def docB_def)
  have b: "sorted (map customDateTime [docA, docB])" by (simp add: docA_def docB_def)
  show ?thesis using a b update_absent_id_silent [OF a b] by simp
qed

lemma delete_present_mset:
  "distinct (map id_d docs) \<Longrightarrow> d \<in> set docs \<Longrightarrow>
   mset docs = add_mset d (mset (deleteDocument (id_d d) docs))"
proof (induction docs)
  case Nil
  then show ?case by simp
next
  case (Cons x xs)
  show ?case
  proof (cases "x = d")
    case True
    with Cons.prems have "id_d d \<notin> id_d ` set xs" by simp
    then have "deleteDocument (id_d d) xs = xs"
      by (simp add: deleteDocument_def filter_absent_id)
    with True show ?thesis by (simp add: deleteDocument_def)
  next
    case False
    with Cons.prems have d: "d \<in> set xs" and dist: "distinct (map id_d xs)" by auto
    from Cons.prems d have "id_d x \<noteq> id_d d" by auto
    with Cons.IH [OF dist d] show ?thesis by (simp add: deleteDocument_def)
  qed
qed

lemma deleteDocument_idem: "deleteDocument i (deleteDocument i docs) = deleteDocument i docs"
  by (simp add: deleteDocument_def)

text \<open>
  Claim C4, as stated, fails in its second half: the second remove of an id signals
  nothing either. It returns \<^verbatim>\<open>undefined\<close> and the list stays as the first remove left
  it.
\<close>

theorem remove_absent_id_counterexample:
  "call_deleteDocument ''b'' (deleteDocument ''b'' [docA, docB, docC]) =
     (ReturnsUndefined, [docA, docC])"
  by (simp add: call_deleteDocument_def deleteDocument_def docA_def docB_def docC_def)

text \<open>
  Claim C4, amended. In a store whose ids are distinct, removing the id of a record \<open>d\<close>
  of the store takes out exactly \<open>d\<close>: the old list is the new one plus \<open>d\<close>, and one
  longer. A second remove of the same id completes without signalling an error and leaves
  the list unchanged.
\<close>

theorem remove_present_then_absent:
  assumes "distinct (map id_d docs)" and "d \<in> set docs"
  shows "mset docs = add_mset d (mset (deleteDocument (id_d d) docs))
     \<and> Suc (length (deleteDocument (id_d d) docs)) = length docs
     \<and> call_deleteDocument (id_d d) (deleteDocument (id_d d) docs) =
         (ReturnsUndefined, deleteDocument (id_d d) docs)"
proof -
  have m: "mset docs = add_mset d (mset (deleteDocument (id_d d) docs))"
    using assms by (rule delete_present_mset)
  have "size (mset docs) = size (add_mset d (mset (deleteDocument (id_d d) docs)))"
    by (subst m) (rule refl)
  then have l: "Suc (length (deleteDocument (id_d d) docs)) = length docs" by simp
  have "call_deleteDocument (id_d d) (deleteDocument (id_d d) docs) =
         (ReturnsUndefined, deleteDocument (id_d d) docs)"
    by (simp add: call_deleteDocument_def deleteDocument_idem)
  with m l show ?thesis by blast
qed

theorem remove_present_then_absent_witness:
  "distinct (map id_d [docA, docB, docC]) \<and> docB \<in> set [docA, docB, docC]
   \<and> deleteDocument ''b'' [docA, docB, docC] = [docA, docC]
   \<and> Suc (length (deleteDocument ''b'' [docA, docB, docC])) = length [docA, docB, docC]
   \<and> call_deleteDocument ''b'' (deleteDocument ''b'' [docA, docB, docC]) =
       (ReturnsUndefined, [docA, docC])"
proof -
  have a: "distinct (map id_d [docA, docB, docC])" by (simp add: docA_def docB_def docC_def)
  have b: "docB \<in> set [docA, docB, docC]" by simp
  have i: "id_d docB = ''b''" by (simp add: docB_def)
  have e: "deleteDocument ''b'' [docA, docB, docC] = [docA, docC]"
    by (simp add: deleteDocument_def docA_def docB_def docC_def)
  show ?thesis using a b e remove_present_then_absent [OF a b] by (simp add: i)
qed

section \<open>The record an upload creates\<close>







section \<open>The validator\<close>

text \<open>
  Claim C6, as stated, fails where both checks fail: a file that is too large and of a
  type that is not accepted is rejected with the size message, not with the type message.
  The size check comes first.
\<close>

theorem oversized_unlisted_type_counterexample:
  "validateFile pageMaxFileSize pageAcceptedFileTypes (notesFile\<lparr>size_f := 30000000\<rparr>) =
      \<lparr>isValid = False, error_v = Some (SizeExceeded 25)\<rparr>
   \<and> firstIsNotWildcard pageAcceptedFileTypes
   \<and> type_f (notesFile\<lparr>size_f := 30000000\<rparr>) \<notin> set pageAcceptedFileTypes
   \<and> error_v (validateFile pageMaxFileSize pageAcceptedFileTypes
        (notesFile\<lparr>size_f := 30000000\<rparr>)) \<noteq> Some (UnsupportedType ''text/plain'')"
  by (simp add: validateFile_def notesFile_def pageMaxFileSize_def pageAcceptedFileTypes_def
        firstIsNotWildcard_def roundMB_def)

text \<open>
  Claim C6, amended. A file larger than \<open>maxFileSize\<close> is rejected with the size
  message, whatever its type. A file whose type is not in \<open>acceptedFileTypes\<close>, when the
  list does not start with the wildcard, is rejected whatever its size: with the type
  message when its size is within the limit, and with the size message when it is not.
  Every other file is accepted. The validator is a function of the limits and the file
  alone.
\<close>

theorem validator_rejects_and_accepts:
  "(size_f f > maxFileSize \<longrightarrow>
      validateFile maxFileSize acceptedFileTypes f =
        \<lparr>isValid = False, error_v = Some (SizeExceeded (roundMB maxFileSize))\<rparr>)
   \<and> (firstIsNotWildcard acceptedFileTypes \<and> type_f f \<notin> set acceptedFileTypes \<longrightarrow>
      \<not> isValid (validateFile maxFileSize acceptedFileTypes f))
   \<and> (size_f f \<le> maxFileSize \<and> firstIsNotWildcard acceptedFileTypes
        \<and> type_f f \<notin> set acceptedFileTypes \<longrightarrow>
      validateFile maxFileSize acceptedFileTypes f =
        \<lparr>isValid = False, error_v = Some (UnsupportedType (type_f f))\<rparr>)
   \<and> (size_f f \<le> maxFileSize
        \<and> (type_f f \<in> set acceptedFileTypes \<or> \<not> firstIsNotWildcard acceptedFileTypes) \<longrightarrow>
      validateFile maxFileSize acceptedFileTypes f = \<lparr>isValid = True, error_v = None\<rparr>)"
  by (auto simp: validateFile_def)

theorem validator_rejects_and_accepts_witness:
  "validateFile pageMaxFileSize pageAcceptedFileTypes (ticket\<lparr>size_f := 30000000\<rparr>) =
      \<lparr>isValid = False, error_v = Some (SizeExceeded 25)\<rparr>
   \<and> validateFile pageMaxFileSize pageAcceptedFileTypes notesFile =
      \<lparr>isValid = False, error_v = Some (UnsupportedType ''text/plain'')\<rparr>
   \<and> validateFile pageMaxFileSize pageAcceptedFileTypes ticket =
      \<lparr>isValid = True, error_v = None\<rparr>
   \<and> validateFile pageMaxFileSize [''*''] notesFile = \<lparr>isValid = True, error_v = None\<rparr>"
  using validator_rejects_and_accepts [where f = "ticket\<lparr>size_f := 30000000\<rparr>"
          and maxFileSize = pageMaxFileSize and acceptedFileTypes = pageAcceptedFileTypes]
        validator_rejects_and_accepts [where f = notesFile
          and maxFileSize = pageMaxFileSize and acceptedFileTypes = pageAcceptedFileTypes]
        validator_rejects_and_accepts [where f = ticket
          and maxFileSize = pageMaxFileSize and acceptedFileTypes = pageAcceptedFileTypes]
        validator_rejects_and_accepts [where f = notesFile
          and maxFileSize = pageMaxFileSize and acceptedFileTypes = "[''*'']"]
  by (simp add: notesFile_def ticket_def pageMaxFileSize_def pageAcceptedFileTypes_def
        firstIsNotWildcard_def roundMB_def)

section \<open>The parser client\<close>

text \<open>
  Claim C7, as stated, fails for the image parser: \<^verbatim>\<open>text/plain\<close> is not in its list of
  types, so the 11MB \<^verbatim>\<open>text/plain\<close> file is rejected for its type and not as too
  large (before the key check and with no request, there too).
\<close>

theorem image_parser_text_plain_counterexample:
  "parseDocument_image exampleImageWorld notesFile =
     (ImageFailure (ImageTypeNotSupported ''text/plain''), [])
   \<and> reasonOf_image (ImageTypeNotSupported ''text/plain'') = UnsupportedTypeForParsing
   \<and> type_f notesFile = ''text/plain'' \<and> size_f notesFile = 11 * 1024 * 1024"
  by (simp add: parseDocument_image_def parseFileWithGPT_image_def isFileTypeSupported_image_def
        supportedTypes_image_def notesFile_def)

text \<open>
  Claim C7, amended. Each of the two parsers rejects a file whose type is not in its own
  list of supported types, or whose size is over the 10MB ceiling, with no request sent
  to the service, whatever the environment. A \<^verbatim>\<open>text/plain\<close> file of 11MB is rejected
  as too large (\<^verbatim>\<open>(11MB)\<close> in the message) by \<^verbatim>\<open>parseDocument\<close> of
  \<^verbatim>\<open>utils/fileParser.ts\<close>, and as of an unsupported type by the image parser; in both
  cases with no request.
\<close>

theorem parser_rejects_up_front:
  "(\<not> isFileTypeSupported f \<longrightarrow>
      parseDocument w f = (Failure (NotSupportedForParsing (type_f f)), [])
      \<and> reasonOf (NotSupportedForParsing (type_f f)) = UnsupportedTypeForParsing)
   \<and> (isFileTypeSupported f \<and> size_f f > maxSizeForParsing \<longrightarrow>
      parseDocument w f = (Failure (TooLargeForParsing (roundMB (size_f f))), [])
      \<and> reasonOf (TooLargeForParsing (roundMB (size_f f))) = TooLarge)
   \<and> (type_f f = ''text/plain'' \<and> size_f f = 11 * 1024 * 1024 \<longrightarrow>
      parseDocument w f = (Failure (TooLargeForParsing 11), []))
   \<and> (\<not> isFileTypeSupported_image f \<longrightarrow>
      parseDocument_image wi f = (ImageFailure (ImageTypeNotSupported (type_f f)), [])
      \<and> reasonOf_image (ImageTypeNotSupported (type_f f)) = UnsupportedTypeForParsing)
   \<and> (isFileTypeSupported_image f \<and> size_f f > 10 * 1024 * 1024 \<longrightarrow>
      parseDocument_image wi f = (ImageFailure (ImageFileTooLarge (roundMB (size_f f))), [])
      \<and> reasonOf_image (ImageFileTooLarge (roundMB (size_f f))) = TooLarge)
   \<and> (type_f f = ''text/plain'' \<longrightarrow>
      parseDocument_image wi f = (ImageFailure (ImageTypeNotSupported ''text/plain''), []))"
proof -
  have tp: "(\<not> isFileTypeSupported f \<longrightarrow>
      parseDocument w f = (Failure (NotSupportedForParsing (type_f f)), [])
      \<and> reasonOf (NotSupportedForParsing (type_f f)) = UnsupportedTypeForParsing)
   \<and> (isFileTypeSupported f \<and> size_f f > maxSizeForParsing \<longrightarrow>
      parseDocument w f = (Failure (TooLargeForParsing (roundMB (size_f f))), [])
      \<and> reasonOf (TooLargeForParsing (roundMB (size_f f))) = TooLarge)
   \<and> (type_f f = ''text/plain'' \<and> size_f f = 11 * 1024 * 1024 \<longrightarrow>
      parseDocument w f = (Failure (TooLargeForParsing 11), []))"
    by (auto simp: parseDocument_def isFileTypeSupported_def supportedTypes_def
          maxSizeForParsing_def roundMB_def)
  have ip: "(\<not> isFileTypeSupported_image f \<longrightarrow>
      parseDocument_image wi f = (ImageFailure (ImageTypeNotSupported (type_f f)), [])
      \<and> reasonOf_image (ImageTypeNotSupported (type_f f)) = UnsupportedTypeForParsing)
   \<and> (isFileTypeSupported_image f \<and> size_f f > 10 * 1024 * 1024 \<longrightarrow>
      parseDocument_image wi f = (ImageFailure (ImageFileTooLarge (roundMB (size_f f))), [])
      \<and> reasonOf_image (ImageFileTooLarge (roundMB (size_f f))) = TooLarge)
   \<and> (type_f f = ''text/plain'' \<longrightarrow>
      parseDocument_image wi f = (ImageFailure (ImageTypeNotSupported ''text/plain''), []))"
    by (auto simp: parseDocument_image_def parseFileWithGPT_image_def
          isFileTypeSupported_image_def supportedTypes_image_def)
  from tp ip show ?thesis by blast
qed

theorem parser_rejects_up_front_witness:
  "parseDocument (exampleWorld payloadNoType) notesFile = (Failure (TooLargeForParsing 11), [])
   \<and> parseDocument (exampleWorld payloadNoType) (ticket\<lparr>type_f := ''image/png''\<rparr>) =
       (Failure (NotSupportedForParsing ''image/png''), [])
   \<and> parseDocument_image exampleImageWorld notesFile =
       (ImageFailure (ImageTypeNotSupported ''text/plain''), [])
   \<and> parseDocument_image exampleImageWorld (ticket\<lparr>size_f := 11534336\<rparr>) =
       (ImageFailure (ImageFileTooLarge 11), [])"
  using parser_rejects_up_front [where f = notesFile and w = "exampleWorld payloadNoType"
          and wi = exampleImageWorld]
        parser_rejects_up_front [where f = "ticket\<lparr>type_f := ''image/png''\<rparr>"
          and w = "exampleWorld payloadNoType"]
        parser_rejects_up_front [where f = "ticket\<lparr>size_f := 11534336\<rparr>"
          and wi = exampleImageWorld]
  by (simp add: notesFile_def ticket_def isFileTypeSupported_def supportedTypes_def
        isFileTypeSupported_image_def supportedTypes_image_def roundMB_def)

lemma validatePayload_invalid:
  assumes "p \<noteq> JNull"
    and "getProp p ''documentName'' = None \<or> getProp p ''documentType'' = None
         \<or> getProp p ''confidence'' = None \<or> \<not> isConfidenceLevel (getProp p ''confidence'')"
  shows "validatePayload p = Failure MissingRequiredFields
         \<or> validatePayload p = Failure InvalidConfidenceValue"
  using assms by (cases p) (auto simp: validatePayload_def)

lemma validatePayload_Success:
  "validatePayload p = Success d \<Longrightarrow>
     d = p \<and> truthy (getProp p ''documentName'') \<and> truthy (getProp p ''documentType'')
     \<and> isConfidenceLevel (getProp p ''confidence'')"
  by (cases p) (auto simp: validatePayload_def split: if_splits)

lemma truthy_Some: "truthy v \<Longrightarrow> v \<noteq> None"
  by (cases v) simp_all

lemma parseFileWithGPT_payload:
  assumes "apiKey w = Some key" and "key \<noteq> []"
    and "createCompletion w \<lparr>promptFile = f, promptContent = fileContent\<rparr> =
           Resolves (Some response)"
    and "response \<noteq> []"
    and "jsonParse w response = Some p"
  shows "parseFileWithGPT w f fileContent =
           (validatePayload p, [\<lparr>promptFile = f, promptContent = fileContent\<rparr>])"
  using assms by (simp add: parseFileWithGPT_def)

lemma validatePayload_null: "validatePayload JNull = Failure FailedToParseResponse"
  by (simp add: validatePayload_def)

lemma validatePayload_not_Success:
  assumes "getProp p ''documentName'' = None \<or> getProp p ''documentType'' = None
         \<or> getProp p ''confidence'' = None \<or> \<not> isConfidenceLevel (getProp p ''confidence'')"
  shows "validatePayload p \<noteq> Success d"
proof
  assume "validatePayload p = Success d"
  then have "truthy (getProp p ''documentName'') \<and> truthy (getProp p ''documentType'')
     \<and> isConfidenceLevel (getProp p ''confidence'')"
    by (simp add: validatePayload_Success)
  with assms show False by (auto dest: truthy_Some)
qed

text \<open>
  Claim C8. Let the key be set and the service answer with a non-empty text that
  \<^verbatim>\<open>JSON.parse\<close> reads as the payload \<open>p\<close>. If \<open>p\<close> lacks \<^verbatim>\<open>documentName\<close>,
  \<^verbatim>\<open>documentType\<close> or \<^verbatim>\<open>confidence\<close>, or its \<^verbatim>\<open>confidence\<close> is not one of
  \<^verbatim>\<open>high\<close>, \<^verbatim>\<open>medium\<close>, \<^verbatim>\<open>low\<close>, then \<^verbatim>\<open>parseFileWithGPT\<close> never returns a success; and
  for every payload but \<^verbatim>\<open>null\<close> the failure is one of the two validation messages,
  which are the specification's \<open>ResponseValidationError\<close>. (For the payload \<^verbatim>\<open>null\<close>,
  which is not an object and which the requested \<^verbatim>\<open>json_object\<close> format excludes, the
  failure is \<^verbatim>\<open>Failed to parse OpenAI response\<close>: lemma \<open>validatePayload_null\<close>.)
\<close>

theorem invalid_payload_is_validation_error:
  assumes "apiKey w = Some key" and "key \<noteq> []"
    and "createCompletion w \<lparr>promptFile = f, promptContent = fileContent\<rparr> =
           Resolves (Some response)"
    and "response \<noteq> []"
    and "jsonParse w response = Some p"
    and "getProp p ''documentName'' = None \<or> getProp p ''documentType'' = None
         \<or> getProp p ''confidence'' = None \<or> \<not> isConfidenceLevel (getProp p ''confidence'')"
  shows "(\<forall>d. fst (parseFileWithGPT w f fileContent) \<noteq> Success d)
     \<and> (p \<noteq> JNull \<longrightarrow>
          (\<exists>e. fst (parseFileWithGPT w f fileContent) = Failure e
               \<and> reasonOf e = ResponseValidationError))"
proof -
  have r: "fst (parseFileWithGPT w f fileContent) = validatePayload p"
    using assms(1-5) by (simp add: parseFileWithGPT_payload)
  have a: "\<forall>d. validatePayload p \<noteq> Success d"
    using assms(6) by (simp add: validatePayload_not_Success)
  have b: "p \<noteq> JNull \<longrightarrow>
      (\<exists>e. validatePayload p = Failure e \<and> reasonOf e = ResponseValidationError)"
  proof
    assume "p \<noteq> JNull"
    from validatePayload_invalid [OF this assms(6)]
    show "\<exists>e. validatePayload p = Failure e \<and> reasonOf e = ResponseValidationError"
      by auto
  qed
  from a b show ?thesis unfolding r by blast
qed

theorem invalid_payload_is_validation_error_witness:
  "fst (parseFileWithGPT (exampleWorld payloadNoType) ticket ''Boarding pass'') =
     Failure MissingRequiredFields
   \<and> fst (parseFileWithGPT (exampleWorld payloadCertain) ticket ''Boarding pass'') =
     Failure InvalidConfidenceValue
   \<and> reasonOf MissingRequiredFields = ResponseValidationError
   \<and> reasonOf InvalidConfidenceValue = ResponseValidationError"
proof -
  have a: "\<exists>e. fst (parseFileWithGPT (exampleWorld payloadNoType) ticket ''Boarding pass'') =
      Failure e \<and> reasonOf e = ResponseValidationError"
    using invalid_payload_is_validation_error
      [where w = "exampleWorld payloadNoType" and key = "''sk-test''" and f = ticket
         and fileContent = "''Boarding pass''" and response = "''response''"
         and p = payloadNoType]
    by (simp add: exampleWorld_def payloadNoType_def)
  have b: "\<exists>e. fst (parseFileWithGPT (exampleWorld payloadCertain) ticket ''Boarding pass'') =
      Failure e \<and> reasonOf e = ResponseValidationError"
    using invalid_payload_is_validation_error
      [where w = "exampleWorld payloadCertain" and key = "''sk-test''" and f = ticket
         and fileContent = "''Boarding pass''" and response = "''response''"
         and p = payloadCertain]
    by (simp add: exampleWorld_def payloadCertain_def)
  have c: "fst (parseFileWithGPT (exampleWorld payloadNoType) ticket ''Boarding pass'') =
      Failure MissingRequiredFields"
    by (simp add: parseFileWithGPT_def exampleWorld_def payloadNoType_def validatePayload_def)
  have d: "fst (parseFileWithGPT (exampleWorld payloadCertain) ticket ''Boarding pass'') =
      Failure InvalidConfidenceValue"
    by (simp add: parseFileWithGPT_def exampleWorld_def payloadCertain_def validatePayload_def)
  from a b c d show ?thesis by simp
qed

section \<open>A failed parse and the store\<close>

text \<open>
  Claim C9. When the parse of a record's file returns a failure, whichever it is,
  \<^verbatim>\<open>parseDocumentData\<close> completes with the list of documents exactly as it was: the same
  records with the same fields in the same order. Only the alert is shown and
  \<^verbatim>\<open>parsingId\<close> is cleared.
\<close>

theorem parse_failure_leaves_store:
  assumes "fst (parseDocument w (file_d doc)) = Failure e"
  shows "parseDocumentData w doc st =
           Some (st\<lparr>alerts := alerts st @ [ParseFailedAlert (Some e)], parsingId := None\<rparr>)
     \<and> (\<exists>st'. parseDocumentData w doc st = Some st' \<and> documents st' = documents st)"
  using assms by (simp add: parseDocumentData_def)

theorem parse_failure_leaves_store_witness:
  "fst (parseDocument (exampleWorld payloadNoType) (file_d docA)) = Failure MissingRequiredFields
   \<and> parseDocumentData (exampleWorld payloadNoType) docA st1 =
       Some \<lparr>documents = [docA, docB], parsingId = None,
             alerts = [ParseFailedAlert (Some MissingRequiredFields)]\<rparr>"
proof -
  have a: "fst (parseDocument (exampleWorld payloadNoType) (file_d docA)) =
      Failure MissingRequiredFields"
    by (simp add: parseDocument_def parseFileWithGPT_def exampleWorld_def payloadNoType_def
          validatePayload_def docA_def ticket_def isFileTypeSupported_def supportedTypes_def
          maxSizeForParsing_def readFileAsText_def truncateContent_def)
  show ?thesis
    using a parse_failure_leaves_store [OF a, where st = st1] by (simp add: st1_def)
qed

end
